theory Spec2Isabelle
  imports Main "HOL-Library.Log_Nat" "HOL-Library.AList"
begin

section \<open>Configuration\<close>

text \<open>The fields of \<open>CONFIG\<close> that the modelled code reads.\<close>

definition RPC_PROVIDERS :: "string list" where
  "RPC_PROVIDERS =
     [''https://eth.llamarpc.com'', ''https://rpc.ankr.com/eth'',
      ''https://cloudflare-eth.com'', ''https://ethereum.publicnode.com'']"

definition CACHE_TTL :: nat where
  "CACHE_TTL = 300"

section \<open>JavaScript values used by the server\<close>

text \<open>
  An \<open>Error\<close> object as the server reads it: the message, and the two fields that
  \<open>createError\<close> adds (\<open>interface ApiError\<close>). A plain \<open>new Error(msg)\<close> has neither.
  The source casts every caught value with \<open>error as Error\<close>; the model follows the cast
  and takes every thrown value to be such an object.
\<close>

record js_error =
  message :: string
  statusCode :: "nat option"
  isOperational :: bool

definition Error :: "string \<Rightarrow> js_error" where
  "Error msg = \<lparr>message = msg, statusCode = None, isOperational = False\<rparr>"

text \<open>\<open>createError(message, statusCode = 500)\<close>: the second argument is optional.\<close>

definition createError :: "string \<Rightarrow> nat option \<Rightarrow> js_error" where
  "createError msg code =
     \<lparr>message = msg,
      statusCode = Some (case code of None \<Rightarrow> 500 | Some c \<Rightarrow> c),
      isOperational = True\<rparr>"

text \<open>
  Decimal rendering of a non-negative integer, as a template literal prints a number.
  Counters and budgets are natural numbers here; the source's doubles agree with them
  below \<open>2^53\<close> (and print in plain decimal below \<open>10^21\<close>).
\<close>

definition digit_char :: "nat \<Rightarrow> char" where
  "digit_char d = ''0123456789'' ! d"

function show_nat :: "nat \<Rightarrow> string" where
  "show_nat n = (if n < 10 then [digit_char n] else show_nat (n div 10) @ [digit_char (n mod 10)])"
  by pat_completeness auto
termination
  by (relation "measure id") auto

declare show_nat.simps [simp del]

section \<open>ProviderManager\<close>

text \<open>
  A provider is identified by the URL it was built from. The cursor \<open>currentIndex\<close> is a
  JavaScript number: \<open>(i + 1) % 0\<close> is \<open>NaN\<close>, which a \<open>Map\<close> accepts as a key and which
  indexes no array element.
\<close>

type_synonym provider = string

datatype js_index = Index nat | NaN

record provider_manager =
  providers :: "provider list"
  currentIndex :: js_index
  failureCount :: "js_index \<rightharpoonup> nat"

text \<open>The constructor: one provider per URL, cursor 0, an empty failure map.\<close>

definition ProviderManager :: "string list \<Rightarrow> provider_manager" where
  "ProviderManager urls = \<lparr>providers = urls, currentIndex = Index 0, failureCount = Map.empty\<rparr>"

text \<open>\<open>this.providers[this.currentIndex]\<close>; \<open>None\<close> is \<open>undefined\<close>.\<close>

fun providers_at :: "provider list \<Rightarrow> js_index \<Rightarrow> provider option" where
  "providers_at ps (Index i) = (if i < length ps then Some (ps ! i) else None)"
| "providers_at ps NaN = None"

definition getProvider :: "provider_manager \<Rightarrow> provider option" where
  "getProvider pm = providers_at (providers pm) (currentIndex pm)"

text \<open>\<open>(this.currentIndex + 1) % this.providers.length\<close>.\<close>

fun next_index :: "nat \<Rightarrow> js_index \<Rightarrow> js_index" where
  "next_index n (Index i) = (if n = 0 then NaN else Index ((i + 1) mod n))"
| "next_index n NaN = NaN"

text \<open>
  The loop of \<open>executeWithFallback\<close>. The operation is a closure over the network: what
  it yields depends on the provider it is handed and on when it is called, so the model
  gives it the attempt number as well. \<open>Inl\<close> is a rejection (the \<open>catch\<close> branch),
  \<open>Inr\<close> the awaited result. The third component of the result lists the invocations of
  the operation in order (attempt number and provider); the source has no such list, it
  is there so that the number of attempts can be stated.
\<close>

function executeWithFallback_loop ::
  "(nat \<Rightarrow> provider option \<Rightarrow> js_error + 'a) \<Rightarrow> nat \<Rightarrow> nat \<Rightarrow> js_error option \<Rightarrow>
   provider_manager \<Rightarrow> (js_error + 'a) \<times> provider_manager \<times> (nat \<times> provider option) list"
where
  "executeWithFallback_loop operation maxRetries attempt lastError pm =
     (if attempt < maxRetries then
        (let provider = providers_at (providers pm) (currentIndex pm) in
         case operation attempt provider of
           Inr result \<Rightarrow>
             (Inr result,
              pm\<lparr>failureCount := (failureCount pm)(currentIndex pm \<mapsto> 0)\<rparr>,
              [(attempt, provider)])
         | Inl error \<Rightarrow>
             (let failures = (case failureCount pm (currentIndex pm) of None \<Rightarrow> 0 | Some c \<Rightarrow> c) + 1;
                  pm1 = pm\<lparr>failureCount := (failureCount pm)(currentIndex pm \<mapsto> failures)\<rparr>;
                  pm2 = pm1\<lparr>currentIndex := next_index (length (providers pm1)) (currentIndex pm1)\<rparr>;
                  (r, pm3, calls) = executeWithFallback_loop operation maxRetries (attempt + 1) (Some error) pm2
              in (r, pm3, (attempt, provider) # calls)))
      else
        (Inl (Error (''All providers failed after '' @ show_nat maxRetries @ '' attempts: '' @
                (case lastError of None \<Rightarrow> ''undefined'' | Some e \<Rightarrow> message e))),
         pm, []))"
  by pat_completeness auto
termination
  by (relation "measure (\<lambda>(operation, maxRetries, attempt, lastError, pm). maxRetries - attempt)") auto

declare executeWithFallback_loop.simps [simp del]

text \<open>\<open>executeWithFallback(operation, maxRetries = 3)\<close>.\<close>

definition executeWithFallback ::
  "(nat \<Rightarrow> provider option \<Rightarrow> js_error + 'a) \<Rightarrow> nat option \<Rightarrow> provider_manager \<Rightarrow>
   (js_error + 'a) \<times> provider_manager \<times> (nat \<times> provider option) list"
where
  "executeWithFallback operation maxRetries pm =
     executeWithFallback_loop operation (case maxRetries of None \<Rightarrow> 3 | Some m \<Rightarrow> m) 0 None pm"




definition attempt_budget :: "nat option \<Rightarrow> nat" where
  "attempt_budget maxRetries = (case maxRetries of None \<Rightarrow> 3 | Some m \<Rightarrow> m)"

text \<open>
  The error thrown when the loop runs out of attempts, as a function of the budget and
  the last error caught.
\<close>

definition exhausted :: "nat \<Rightarrow> js_error option \<Rightarrow> js_error" where
  "exhausted m le = Error (''All providers failed after '' @ show_nat m @ '' attempts: '' @
                (case le of None \<Rightarrow> ''undefined'' | Some e \<Rightarrow> message e))"

section \<open>JSON values\<close>

text \<open>
  What the cache stores and the routes send. An object is the list of its properties in
  insertion order. \<open>truthy\<close> is JavaScript's conversion to boolean, as \<open>if (cached)\<close>
  applies it.
\<close>

datatype json =
  JNull | JBool bool | JNum int | JStr string | JArr "json list" | JObj "(string \<times> json) list"

fun truthy :: "json \<Rightarrow> bool" where
  "truthy JNull = False"
| "truthy (JBool b) = b"
| "truthy (JNum n) = (n \<noteq> 0)"
| "truthy (JStr s) = (s \<noteq> [])"
| "truthy (JArr xs) = True"
| "truthy (JObj kvs) = True"

section \<open>The two storage backends\<close>

subsection \<open>node-cache\<close>

text \<open>
  The process-local tier is the \<open>node-cache\<close> package, which is not part of this
  repository. The model follows the package's documented behaviour: an entry wraps the
  value with its time of death \<open>t\<close> in milliseconds, \<open>0\<close> meaning that it never dies;
  \<open>set\<close> with no TTL uses \<open>stdTTL\<close> (seconds), a TTL of 0 means no expiry; \<open>get\<close>
  answers \<open>undefined\<close> for a missing entry and for one whose time is over, which it
  deletes. \<open>now\<close> is the reading of \<open>Date.now()\<close>.
\<close>

record node_cache =
  stdTTL :: nat
  entries :: "(string \<times> json \<times> nat) list"

definition NodeCache :: "nat \<Rightarrow> node_cache" where
  "NodeCache ttl = \<lparr>stdTTL = ttl, entries = []\<rparr>"

definition NodeCache_get :: "nat \<Rightarrow> string \<Rightarrow> node_cache \<Rightarrow> json option \<times> node_cache" where
  "NodeCache_get now key c =
     (case map_of (entries c) key of
        None \<Rightarrow> (None, c)
      | Some (v, t) \<Rightarrow>
          if t \<noteq> 0 \<and> t < now then (None, c\<lparr>entries := AList.delete key (entries c)\<rparr>)
          else (Some v, c))"

definition NodeCache_set :: "nat \<Rightarrow> string \<Rightarrow> json \<Rightarrow> nat option \<Rightarrow> node_cache \<Rightarrow> node_cache" where
  "NodeCache_set now key v ttl c =
     (let livetime =
        (case ttl of
           Some n \<Rightarrow> if n = 0 then 0 else now + n * 1000
         | None \<Rightarrow> if stdTTL c = 0 then 0 else now + stdTTL c * 1000)
      in c\<lparr>entries := AList.update key (v, livetime) (entries c)\<rparr>)"

definition NodeCache_keys :: "node_cache \<Rightarrow> string list" where
  "NodeCache_keys c = map fst (entries c)"

subsection \<open>Redis\<close>

text \<open>
  The persistent tier is a Redis server reached through \<open>ioredis\<close>. The model keeps the
  server's keyspace (a value and, when one was set, the time at which the key expires)
  and the list of commands the client has sent, in order. A command either is applied
  and answers, or is rejected with an error (the server is unreachable); which of the
  two is for the world to decide, so every command takes the fault as an argument. A
  rejected command leaves the keyspace as it was.
\<close>

datatype redis_command = GET string | SET string string | SETEX string nat string

record redis =
  keyspace :: "string \<rightharpoonup> string \<times> nat option"
  commands :: "redis_command list"

definition redis_lookup :: "nat \<Rightarrow> (string \<rightharpoonup> string \<times> nat option) \<Rightarrow> string \<Rightarrow> string option" where
  "redis_lookup now ks key =
     (case ks key of
        None \<Rightarrow> None
      | Some (s, None) \<Rightarrow> Some s
      | Some (s, Some deadline) \<Rightarrow> if deadline \<le> now then None else Some s)"

fun redis_apply ::
  "nat \<Rightarrow> redis_command \<Rightarrow> (string \<rightharpoonup> string \<times> nat option) \<Rightarrow>
   string option \<times> (string \<rightharpoonup> string \<times> nat option)"
where
  "redis_apply now (GET key) ks = (redis_lookup now ks key, ks)"
| "redis_apply now (SET key s) ks = (Some ''OK'', ks(key \<mapsto> (s, None)))"
| "redis_apply now (SETEX key ttl s) ks = (Some ''OK'', ks(key \<mapsto> (s, Some (now + ttl * 1000))))"

definition redis_send ::
  "nat \<Rightarrow> js_error option \<Rightarrow> redis_command \<Rightarrow> redis \<Rightarrow> (js_error + string option) \<times> redis"
where
  "redis_send now fault cmd r =
     (case fault of
        Some e \<Rightarrow> (Inl e, r\<lparr>commands := commands r @ [cmd]\<rparr>)
      | None \<Rightarrow>
          (case redis_apply now cmd (keyspace r) of
             (reply, ks) \<Rightarrow> (Inr reply, \<lparr>keyspace = ks, commands = commands r @ [cmd]\<rparr>)))"

section \<open>CacheManager\<close>

text \<open>
  \<open>console\<close> collects what the cache writes with \<open>console.error\<close>. \<open>JSON.parse\<close> and
  \<open>JSON.stringify\<close> are the runtime's; they are arguments (\<open>parse\<close>, \<open>stringify\<close>), and
  \<open>Inl\<close> is the exception either may throw. Each call reads the clock once.
\<close>

datatype console_line = Redis_get_error js_error | Redis_set_error js_error

record cache_stats =
  hits :: nat
  misses :: nat
  sets :: nat

record cache_manager =
  memoryCache :: node_cache
  redisClient :: "redis option"
  stats :: cache_stats
  console :: "console_line list"

text \<open>The constructor; the argument says whether \<open>USE_REDIS\<close> and \<open>REDIS_URL\<close> are set.\<close>

definition CacheManager :: "bool \<Rightarrow> cache_manager" where
  "CacheManager use_redis =
     \<lparr>memoryCache = NodeCache CACHE_TTL,
      redisClient = (if use_redis then Some \<lparr>keyspace = Map.empty, commands = []\<rparr> else None),
      stats = \<lparr>hits = 0, misses = 0, sets = 0\<rparr>,
      console = []\<rparr>"

definition count_hit :: "cache_manager \<Rightarrow> cache_manager" where
  "count_hit cm = cm\<lparr>stats := (stats cm)\<lparr>hits := hits (stats cm) + 1\<rparr>\<rparr>"

definition count_miss :: "cache_manager \<Rightarrow> cache_manager" where
  "count_miss cm = cm\<lparr>stats := (stats cm)\<lparr>misses := misses (stats cm) + 1\<rparr>\<rparr>"

text \<open>\<open>get(key)\<close>. The answer \<open>null\<close> is \<open>JNull\<close>.\<close>

definition CacheManager_get ::
  "(string \<Rightarrow> js_error + json) \<Rightarrow> nat \<Rightarrow> js_error option \<Rightarrow> string \<Rightarrow> cache_manager \<Rightarrow>
   json \<times> cache_manager"
where
  "CacheManager_get parse now fault key cm =
     (case NodeCache_get now key (memoryCache cm) of
        (Some memoryValue, mc) \<Rightarrow> (memoryValue, count_hit (cm\<lparr>memoryCache := mc\<rparr>))
      | (None, mc) \<Rightarrow>
          (let cm1 = cm\<lparr>memoryCache := mc\<rparr> in
           case redisClient cm1 of
             None \<Rightarrow> (JNull, count_miss cm1)
           | Some client \<Rightarrow>
               (case redis_send now fault (GET key) client of
                  (Inl error, client1) \<Rightarrow>
                    (JNull, count_miss (cm1\<lparr>redisClient := Some client1,
                                          console := console cm1 @ [Redis_get_error error]\<rparr>))
                | (Inr redisValue, client1) \<Rightarrow>
                    (let cm2 = cm1\<lparr>redisClient := Some client1\<rparr> in
                     case redisValue of
                       None \<Rightarrow> (JNull, count_miss cm2)
                     | Some s \<Rightarrow>
                         if s = [] then (JNull, count_miss cm2)
                         else
                           (case parse s of
                              Inl error \<Rightarrow>
                                (JNull, count_miss (cm2\<lparr>console := console cm2 @ [Redis_get_error error]\<rparr>))
                            | Inr parsed \<Rightarrow>
                                (parsed,
                                 count_hit (cm2\<lparr>memoryCache :=
                                   NodeCache_set now key parsed None (memoryCache cm2)\<rparr>)))))))"

text \<open>
  \<open>set(key, value, ttl?)\<close>. The first component is what the caller of the \<open>async\<close>
  function sees: \<open>Inr ()\<close> when the promise is fulfilled, \<open>Inl\<close> when it is rejected.
  \<open>if (ttl)\<close> is false for a missing TTL and for 0.
\<close>

definition CacheManager_set ::
  "(json \<Rightarrow> js_error + string) \<Rightarrow> nat \<Rightarrow> js_error option \<Rightarrow> string \<Rightarrow> json \<Rightarrow> nat option \<Rightarrow>
   cache_manager \<Rightarrow> (js_error + unit) \<times> cache_manager"
where
  "CacheManager_set stringify now fault key v ttl cm =
     (let cm1 = cm\<lparr>memoryCache := NodeCache_set now key v ttl (memoryCache cm)\<rparr>;
          cm2 =
            (case redisClient cm1 of
               None \<Rightarrow> cm1
             | Some client \<Rightarrow>
                 (case stringify v of
                    Inl error \<Rightarrow> cm1\<lparr>console := console cm1 @ [Redis_set_error error]\<rparr>
                  | Inr serialized \<Rightarrow>
                      (case redis_send now fault
                              (case ttl of
                                 None \<Rightarrow> SET key serialized
                               | Some n \<Rightarrow> if n \<noteq> 0 then SETEX key n serialized else SET key serialized)
                              client of
                         (Inl error, client1) \<Rightarrow>
                           cm1\<lparr>redisClient := Some client1,
                               console := console cm1 @ [Redis_set_error error]\<rparr>
                       | (Inr reply, client1) \<Rightarrow> cm1\<lparr>redisClient := Some client1\<rparr>)))
      in (Inr (), cm2\<lparr>stats := (stats cm2)\<lparr>sets := sets (stats cm2) + 1\<rparr>\<rparr>))"

subsection \<open>The hit rate\<close>

text \<open>
  \<open>getStats\<close> computes the hit rate in double precision:
  \<open>((hits / (hits + misses)) * 100).toFixed(2)\<close>. A non-negative finite double is kept as
  the exact fraction it equals (numerator and denominator). \<open>binary64 a b\<close> is the double
  nearest to \<open>a / b\<close>, ties going to the even significand, which is what an IEEE 754
  division or multiplication returns for an exact result \<open>a / b\<close> in the range of normal
  numbers (the quotients and products here lie between \<open>2^-53\<close> and 100). The counters
  themselves are exact below \<open>2^53\<close>.
\<close>

definition round_half_even :: "nat \<Rightarrow> nat \<Rightarrow> nat" where
  "round_half_even num den =
     (let q = num div den; r = num mod den in
      if 2 * r < den then q
      else if den < 2 * r then q + 1
      else if even q then q else q + 1)"

definition binary64 :: "nat \<Rightarrow> nat \<Rightarrow> nat \<times> nat" where
  "binary64 a b =
     (if a = 0 then (0, 1)
      else
        (let k = bitlen (int a) - bitlen (int b);
             e = (if (if 0 \<le> k then b * 2 ^ nat k \<le> a else b \<le> a * 2 ^ nat (- k)) then k else k - 1);
             s = 52 - e
         in if 0 \<le> s then (round_half_even (a * 2 ^ nat s) b, 2 ^ nat s)
            else (round_half_even a (b * 2 ^ nat (- s)) * 2 ^ nat (- s), 1)))"

text \<open>
  \<open>Number.prototype.toFixed(2)\<close> on a double \<open>x\<close> with \<open>0 \<le> x < 10^21\<close>: the integer \<open>n\<close>
  for which \<open>n / 100 - x\<close> is closest to zero (the larger one of two), written in
  decimal, padded with zeros to three digits, with a point before the last two.
\<close>

definition toFixed2 :: "nat \<times> nat \<Rightarrow> string" where
  "toFixed2 x =
     (let n = (200 * fst x + snd x) div (2 * snd x);
          m = show_nat n;
          m' = (if length m \<le> 2 then replicate (3 - length m) CHR ''0'' @ m else m);
          k = length m'
      in take (k - 2) m' @ ''.'' @ drop (k - 2) m')"

record cache_report = cache_stats +
  hitRate :: string
  memoryKeys :: nat

definition CacheManager_getStats :: "cache_manager \<Rightarrow> cache_report" where
  "CacheManager_getStats cm =
     (let h = hits (stats cm); m = misses (stats cm);
          rate = (if h + m > 0
                  then toFixed2 (case binary64 h (h + m) of (num, den) \<Rightarrow> binary64 (num * 100) den)
                  else ''0.00'')
      in \<lparr>hits = h, misses = m, sets = sets (stats cm),
          hitRate = rate @ ''%'',
          memoryKeys = length (NodeCache_keys (memoryCache cm))\<rparr>)"

text \<open>
  For comparison with what \<open>toFixed(2)\<close> prints: the decimal numeral of \<open>n / 100\<close> with
  two digits after the point.
\<close>

definition decimal2 :: "nat \<Rightarrow> string" where
  "decimal2 n = show_nat (n div 100) @ ''.'' @ [digit_char (n div 10 mod 10), digit_char (n mod 10)]"


section \<open>Utility functions of the routes\<close>

text \<open>
  Strings are lists of bytes; \<open>trim\<close> and \<open>toLowerCase\<close> are modelled on ASCII (the
  white space characters tab, line feed, vertical tab, form feed, carriage return and
  space; the letters A to Z). \<open>isValidENSName\<close> is the test of
  \<open>/^[a-z0-9-]+\\.eth$/\<close> against the lower-cased name.
\<close>

definition is_space :: "char \<Rightarrow> bool" where
  "is_space c = (c \<in> set [CHR 0x09, CHR 0x0A, CHR 0x0B, CHR 0x0C, CHR 0x0D, CHR '' ''])"

definition trim :: "string \<Rightarrow> string" where
  "trim s = rev (dropWhile is_space (rev (dropWhile is_space s)))"

definition lower_char :: "char \<Rightarrow> char" where
  "lower_char c =
     (case map_of (zip ''ABCDEFGHIJKLMNOPQRSTUVWXYZ'' ''abcdefghijklmnopqrstuvwxyz'') c of
        None \<Rightarrow> c
      | Some l \<Rightarrow> l)"

definition toLowerCase :: "string \<Rightarrow> string" where
  "toLowerCase s = map lower_char s"

definition sanitizeInput :: "string \<Rightarrow> string" where
  "sanitizeInput input = toLowerCase (trim input)"

definition isValidENSName :: "string \<Rightarrow> bool" where
  "isValidENSName name =
     (let s = toLowerCase name; n = length s in
      4 < n \<and> drop (n - 4) s = ''.eth'' \<and>
      list_all (\<lambda>c. c \<in> set ''abcdefghijklmnopqrstuvwxyz0123456789-'') (take (n - 4) s))"

text \<open>
  \<open>errorHandler\<close>: the status and the body it sends for an error passed to \<open>next\<close>. The
  request id and the timestamp are the request's.
\<close>

definition errorHandler :: "js_error \<Rightarrow> string \<Rightarrow> string \<Rightarrow> nat \<times> json" where
  "errorHandler err requestId ts =
     (let code = (case statusCode err of None \<Rightarrow> 500 | Some c \<Rightarrow> if c = 0 then 500 else c);
          msg = (if isOperational err then message err else ''Internal server error'')
      in (code, JObj [(''error'', JStr msg), (''requestId'', JStr requestId), (''timestamp'', JStr ts)]))"

section \<open>The routes\<close>

text \<open>
  What one request meets outside the process: the JSON functions of the runtime,
  \<open>ethers.isAddress\<close>, the answers of the RPC providers (by attempt number, provider and
  argument; \<open>Inl\<close> is a rejection, \<open>Inr None\<close> is \<open>null\<close>), the clock, the timestamp
  \<open>new Date().toISOString()\<close>, and whether the Redis command sent by the cache read
  and by the cache write is rejected. A resolver is what \<open>getResolver\<close> answers: an object
  with \<open>getAvatar\<close> and \<open>getText\<close>.
\<close>

record resolver =
  getAvatar :: "js_error + string option"
  getText :: "string \<Rightarrow> js_error + string option"

record env =
  JSON_parse :: "string \<Rightarrow> js_error + json"
  JSON_stringify :: "json \<Rightarrow> js_error + string"
  isAddress :: "string \<Rightarrow> bool"
  resolveName :: "nat \<Rightarrow> provider \<Rightarrow> string \<Rightarrow> js_error + string option"
  lookupAddress :: "nat \<Rightarrow> provider \<Rightarrow> string \<Rightarrow> js_error + string option"
  getResolver :: "nat \<Rightarrow> provider \<Rightarrow> string \<Rightarrow> js_error + resolver option"
  clock :: nat
  timestamp :: string
  redis_get_fault :: "js_error option"
  redis_set_fault :: "js_error option"

record app =
  cache :: cache_manager
  providerManager :: provider_manager

text \<open>
  A method call on the provider handed to the operation. With no provider at the cursor
  the operation receives \<open>undefined\<close> and the call throws a \<open>TypeError\<close>.
\<close>

definition on_provider :: "string \<Rightarrow> (provider \<Rightarrow> js_error + 'a) \<Rightarrow> provider option \<Rightarrow> js_error + 'a" where
  "on_provider method call p =
     (case p of
        None \<Rightarrow> Inl (Error (''Cannot read properties of undefined (reading '' @ method @ '')''))
      | Some u \<Rightarrow> call u)"

text \<open>\<open>x || null\<close> for a string or \<open>null\<close>, and the plain conversion to JSON.\<close>

fun or_null :: "string option \<Rightarrow> json" where
  "or_null None = JNull"
| "or_null (Some s) = (if s = [] then JNull else JStr s)"

fun json_of :: "string option \<Rightarrow> json" where
  "json_of None = JNull"
| "json_of (Some s) = JStr s"

text \<open>
  \<open>{ ...x, cached: b }\<close>: the own properties of \<open>x\<close> (those of an object; the indices of
  an array or of a string; none otherwise), then \<open>cached\<close>, which keeps its place when
  \<open>x\<close> has it already.
\<close>

fun spread :: "json \<Rightarrow> (string \<times> json) list" where
  "spread (JObj kvs) = kvs"
| "spread (JArr xs) = zip (map show_nat [0..<length xs]) xs"
| "spread (JStr s) = zip (map show_nat [0..<length s]) (map (\<lambda>c. JStr [c]) s)"
| "spread j = []"

definition with_cached :: "json \<Rightarrow> bool \<Rightarrow> json" where
  "with_cached x b = JObj (AList.update ''cached'' (JBool b) (spread x))"

text \<open>
  A route yields what its \<open>try\<close> block does: \<open>Inr body\<close> when it answers with
  \<open>res.json(body)\<close>, \<open>Inl error\<close> when it hands the error to \<open>next\<close>.
\<close>

definition resolve_route :: "env \<Rightarrow> string \<Rightarrow> app \<Rightarrow> (js_error + json) \<times> app" where
  "resolve_route env param st =
     (let name = sanitizeInput param in
      if \<not> isValidENSName name then (Inl (createError ''Invalid ENS name format'' (Some 400)), st)
      else
        (let cacheKey = ''resolve:'' @ name in
         case CacheManager_get (JSON_parse env) (clock env) (redis_get_fault env) cacheKey (cache st) of
           (cached, c1) \<Rightarrow>
             if truthy cached then (Inr (with_cached cached True), st\<lparr>cache := c1\<rparr>)
             else
               (case executeWithFallback
                       (\<lambda>attempt. on_provider ''resolveName'' (\<lambda>p. resolveName env attempt p name))
                       None (providerManager st) of
                  (Inl error, pm1, calls) \<Rightarrow> (Inl error, \<lparr>cache = c1, providerManager = pm1\<rparr>)
                | (Inr address, pm1, calls) \<Rightarrow>
                    (case address of
                       None \<Rightarrow>
                         (Inl (createError ''ENS name not found'' (Some 404)),
                          \<lparr>cache = c1, providerManager = pm1\<rparr>)
                     | Some a \<Rightarrow>
                         if a = [] then
                           (Inl (createError ''ENS name not found'' (Some 404)),
                            \<lparr>cache = c1, providerManager = pm1\<rparr>)
                         else
                           (let result = JObj [(''name'', JStr name), (''address'', JStr a),
                                               (''timestamp'', JStr (timestamp env))] in
                            case CacheManager_set (JSON_stringify env) (clock env) (redis_set_fault env)
                                   cacheKey result None c1 of
                              (Inl error, c2) \<Rightarrow> (Inl error, \<lparr>cache = c2, providerManager = pm1\<rparr>)
                            | (Inr u, c2) \<Rightarrow>
                                (Inr (with_cached result False), \<lparr>cache = c2, providerManager = pm1\<rparr>))))))"

definition reverse_route :: "env \<Rightarrow> string \<Rightarrow> app \<Rightarrow> (js_error + json) \<times> app" where
  "reverse_route env param st =
     (let address = sanitizeInput param in
      if \<not> isAddress env address then (Inl (createError ''Invalid Ethereum address'' (Some 400)), st)
      else
        (let cacheKey = ''reverse:'' @ address in
         case CacheManager_get (JSON_parse env) (clock env) (redis_get_fault env) cacheKey (cache st) of
           (cached, c1) \<Rightarrow>
             if truthy cached then (Inr (with_cached cached True), st\<lparr>cache := c1\<rparr>)
             else
               (case executeWithFallback
                       (\<lambda>attempt. on_provider ''lookupAddress'' (\<lambda>p. lookupAddress env attempt p address))
                       None (providerManager st) of
                  (Inl error, pm1, calls) \<Rightarrow> (Inl error, \<lparr>cache = c1, providerManager = pm1\<rparr>)
                | (Inr name, pm1, calls) \<Rightarrow>
                    (let result = JObj [(''address'', JStr address), (''name'', or_null name),
                                        (''timestamp'', JStr (timestamp env))] in
                     case CacheManager_set (JSON_stringify env) (clock env) (redis_set_fault env)
                            cacheKey result None c1 of
                       (Inl error, c2) \<Rightarrow> (Inl error, \<lparr>cache = c2, providerManager = pm1\<rparr>)
                     | (Inr u, c2) \<Rightarrow>
                         (Inr (with_cached result False), \<lparr>cache = c2, providerManager = pm1\<rparr>)))))"

text \<open>The operation of the avatar route: \<open>resolver?.getAvatar()\<close> is \<open>undefined\<close> without a resolver.\<close>

definition avatar_operation :: "env \<Rightarrow> string \<Rightarrow> nat \<Rightarrow> provider option \<Rightarrow> js_error + string option" where
  "avatar_operation env name attempt =
     on_provider ''getResolver''
       (\<lambda>p. case getResolver env attempt p name of
              Inl error \<Rightarrow> Inl error
            | Inr None \<Rightarrow> Inr None
            | Inr (Some r) \<Rightarrow> getAvatar r)"

definition avatar_route :: "env \<Rightarrow> string \<Rightarrow> app \<Rightarrow> (js_error + json) \<times> app" where
  "avatar_route env param st =
     (let name = sanitizeInput param in
      if \<not> isValidENSName name then (Inl (createError ''Invalid ENS name format'' (Some 400)), st)
      else
        (let cacheKey = ''avatar:'' @ name in
         case CacheManager_get (JSON_parse env) (clock env) (redis_get_fault env) cacheKey (cache st) of
           (cached, c1) \<Rightarrow>
             if truthy cached then (Inr (with_cached cached True), st\<lparr>cache := c1\<rparr>)
             else
               (case executeWithFallback (avatar_operation env name) None (providerManager st) of
                  (Inl error, pm1, calls) \<Rightarrow> (Inl error, \<lparr>cache = c1, providerManager = pm1\<rparr>)
                | (Inr avatar, pm1, calls) \<Rightarrow>
                    (let result = JObj [(''name'', JStr name), (''avatar'', or_null avatar),
                                        (''timestamp'', JStr (timestamp env))] in
                     case CacheManager_set (JSON_stringify env) (clock env) (redis_set_fault env)
                            cacheKey result None c1 of
                       (Inl error, c2) \<Rightarrow> (Inl error, \<lparr>cache = c2, providerManager = pm1\<rparr>)
                     | (Inr u, c2) \<Rightarrow>
                         (Inr (with_cached result False), \<lparr>cache = c2, providerManager = pm1\<rparr>)))))"

text \<open>
  The operation of the records route: without a resolver it throws (inside the
  operation, so the fallback loop catches it); each text record is read on its own, a
  failed read giving \<open>null\<close>.
\<close>

definition record_keys :: "string list" where
  "record_keys = [''email'', ''url'', ''avatar'', ''description'', ''com.twitter'', ''com.github'',
                  ''com.discord'', ''com.telegram'']"

definition records_operation :: "env \<Rightarrow> string \<Rightarrow> nat \<Rightarrow> provider option \<Rightarrow> js_error + json" where
  "records_operation env name attempt =
     on_provider ''getResolver''
       (\<lambda>p. case getResolver env attempt p name of
              Inl error \<Rightarrow> Inl error
            | Inr None \<Rightarrow> Inl (createError ''ENS resolver not found'' (Some 404))
            | Inr (Some r) \<Rightarrow>
                Inr (JObj (map (\<lambda>key. (key, case getText r key of Inl error \<Rightarrow> JNull | Inr v \<Rightarrow> or_null v))
                            record_keys)))"

definition records_route :: "env \<Rightarrow> string \<Rightarrow> app \<Rightarrow> (js_error + json) \<times> app" where
  "records_route env param st =
     (let name = sanitizeInput param in
      if \<not> isValidENSName name then (Inl (createError ''Invalid ENS name format'' (Some 400)), st)
      else
        (let cacheKey = ''records:'' @ name in
         case CacheManager_get (JSON_parse env) (clock env) (redis_get_fault env) cacheKey (cache st) of
           (cached, c1) \<Rightarrow>
             if truthy cached then (Inr (with_cached cached True), st\<lparr>cache := c1\<rparr>)
             else
               (case executeWithFallback (records_operation env name) None (providerManager st) of
                  (Inl error, pm1, calls) \<Rightarrow> (Inl error, \<lparr>cache = c1, providerManager = pm1\<rparr>)
                | (Inr records, pm1, calls) \<Rightarrow>
                    (let result = JObj [(''name'', JStr name), (''records'', records),
                                        (''timestamp'', JStr (timestamp env))] in
                     case CacheManager_set (JSON_stringify env) (clock env) (redis_set_fault env)
                            cacheKey result None c1 of
                       (Inl error, c2) \<Rightarrow> (Inl error, \<lparr>cache = c2, providerManager = pm1\<rparr>)
                     | (Inr u, c2) \<Rightarrow>
                         (Inr (with_cached result False), \<lparr>cache = c2, providerManager = pm1\<rparr>)))))"

subsection \<open>Batch\<close>

text \<open>
  The elements of \<open>operations\<close> are whatever JSON the client sent. Reading a property
  of \<open>null\<close> throws; of the properties read here (\<open>operations\<close>, \<open>type\<close>, \<open>name\<close>,
  \<open>address\<close>) only an object can have one. \<open>sanitizeInput\<close> needs a string: on anything
  else \<open>input.trim()\<close> throws.
\<close>

fun js_field :: "json \<Rightarrow> string \<Rightarrow> js_error + json option" where
  "js_field JNull k = Inl (Error (''Cannot read properties of null (reading '' @ k @ '')''))"
| "js_field (JObj kvs) k = Inr (map_of kvs k)"
| "js_field j k = Inr None"

fun sanitize_any :: "json option \<Rightarrow> js_error + string" where
  "sanitize_any (Some (JStr s)) = Inr (sanitizeInput s)"
| "sanitize_any None = Inl (Error ''Cannot read properties of undefined (reading trim)'')"
| "sanitize_any (Some JNull) = Inl (Error ''Cannot read properties of null (reading trim)'')"
| "sanitize_any (Some j) = Inl (Error ''input.trim is not a function'')"

text \<open>
  The body of \<open>operations.map(async (op) => ...)\<close> for one element: \<open>Inr\<close> is the value
  the promise is fulfilled with, \<open>Inl\<close> the reason it is rejected with.
\<close>

definition batch_operation :: "env \<Rightarrow> json \<Rightarrow> app \<Rightarrow> (js_error + json) \<times> app" where
  "batch_operation env op st =
     (case js_field op ''type'' of
        Inl error \<Rightarrow> (Inl error, st)
      | Inr ty \<Rightarrow>
          if ty = Some (JStr ''resolve'') then
            (case sanitize_any (case js_field op ''name'' of Inl error \<Rightarrow> None | Inr x \<Rightarrow> x) of
               Inl error \<Rightarrow> (Inl error, st)
             | Inr name \<Rightarrow>
                 (let cacheKey = ''resolve:'' @ name in
                  case CacheManager_get (JSON_parse env) (clock env) (redis_get_fault env) cacheKey (cache st) of
                    (cached, c1) \<Rightarrow>
                      if truthy cached then (Inr cached, st\<lparr>cache := c1\<rparr>)
                      else
                        (case executeWithFallback
                                (\<lambda>attempt. on_provider ''resolveName'' (\<lambda>p. resolveName env attempt p name))
                                None (providerManager st) of
                           (Inl error, pm1, calls) \<Rightarrow> (Inl error, \<lparr>cache = c1, providerManager = pm1\<rparr>)
                         | (Inr address, pm1, calls) \<Rightarrow>
                             (let result = JObj [(''name'', JStr name), (''address'', json_of address)] in
                              case CacheManager_set (JSON_stringify env) (clock env) (redis_set_fault env)
                                     cacheKey result None c1 of
                                (Inl error, c2) \<Rightarrow> (Inl error, \<lparr>cache = c2, providerManager = pm1\<rparr>)
                              | (Inr u, c2) \<Rightarrow> (Inr result, \<lparr>cache = c2, providerManager = pm1\<rparr>)))))
          else if ty = Some (JStr ''reverse'') then
            (case sanitize_any (case js_field op ''address'' of Inl error \<Rightarrow> None | Inr x \<Rightarrow> x) of
               Inl error \<Rightarrow> (Inl error, st)
             | Inr address \<Rightarrow>
                 (let cacheKey = ''reverse:'' @ address in
                  case CacheManager_get (JSON_parse env) (clock env) (redis_get_fault env) cacheKey (cache st) of
                    (cached, c1) \<Rightarrow>
                      if truthy cached then (Inr cached, st\<lparr>cache := c1\<rparr>)
                      else
                        (case executeWithFallback
                                (\<lambda>attempt. on_provider ''lookupAddress'' (\<lambda>p. lookupAddress env attempt p address))
                                None (providerManager st) of
                           (Inl error, pm1, calls) \<Rightarrow> (Inl error, \<lparr>cache = c1, providerManager = pm1\<rparr>)
                         | (Inr name, pm1, calls) \<Rightarrow>
                             (let result = JObj [(''address'', JStr address), (''name'', json_of name)] in
                              case CacheManager_set (JSON_stringify env) (clock env) (redis_set_fault env)
                                     cacheKey result None c1 of
                                (Inl error, c2) \<Rightarrow> (Inl error, \<lparr>cache = c2, providerManager = pm1\<rparr>)
                              | (Inr u, c2) \<Rightarrow> (Inr result, \<lparr>cache = c2, providerManager = pm1\<rparr>)))))
          else (Inl (Error ''Invalid operation type''), st))"

text \<open>
  \<open>Promise.allSettled\<close> over the mapped operations. The source starts the operations
  together and lets them interleave at their \<open>await\<close>s; the model runs them one after
  the other in request order, the \<open>i\<close>-th in the environment \<open>envs i\<close>. That is one
  schedule only: what is proved of the batch below is about the list of outcomes, not
  about how concurrent operations see each other's cache writes.
\<close>

fun settle_all :: "(nat \<Rightarrow> env) \<Rightarrow> nat \<Rightarrow> json list \<Rightarrow> app \<Rightarrow> (js_error + json) list \<times> app" where
  "settle_all envs i [] st = ([], st)"
| "settle_all envs i (op # ops) st =
     (case batch_operation (envs i) op st of
        (r, st1) \<Rightarrow> (case settle_all envs (i + 1) ops st1 of (rs, st2) \<Rightarrow> (r # rs, st2)))"

text \<open>One element of \<open>results.map((r, i) => ...)\<close>.\<close>

fun batch_entry :: "nat \<Rightarrow> js_error + json \<Rightarrow> json" where
  "batch_entry i (Inr v) =
     JObj [(''index'', JNum (int i)), (''status'', JStr ''fulfilled''), (''data'', v), (''error'', JNull)]"
| "batch_entry i (Inl reason) =
     JObj [(''index'', JNum (int i)), (''status'', JStr ''rejected''), (''data'', JNull),
           (''error'', JStr (message reason))]"

definition batch_route :: "(nat \<Rightarrow> env) \<Rightarrow> json \<Rightarrow> app \<Rightarrow> (js_error + json) \<times> app" where
  "batch_route envs body st =
     (case js_field body ''operations'' of
        Inl error \<Rightarrow> (Inl error, st)
      | Inr operations \<Rightarrow>
          (case operations of
             Some (JArr ops) \<Rightarrow>
               if length ops = 0 then (Inl (createError ''Invalid batch request format'' (Some 400)), st)
               else if length ops > 10 then
                 (Inl (createError ''Batch size limit exceeded (max 10)'' (Some 400)), st)
               else
                 (case settle_all envs 0 ops st of
                    (results, st1) \<Rightarrow>
                      (Inr (JObj [(''results'', JArr (map (\<lambda>(i, r). batch_entry i r)
                                                        (zip [0..<length results] results)))]),
                       st1))
           | _ \<Rightarrow> (Inl (createError ''Invalid batch request format'' (Some 400)), st)))"

section \<open>The WebSocket server\<close>

text \<open>
  The server's handlers as a state machine over the events the \<open>ws\<close> package and the
  timers deliver. A socket is known by a number. For each socket the state keeps its
  \<open>readyState\<close>, whether the connection handler attached its listeners to it
  (\<open>listening\<close>), the closure variables \<open>isAlive\<close> and \<open>heartbeatInterval\<close> (\<open>heartbeat\<close>
  is true while the interval is armed), and the frames sent to it so far (\<open>outbox\<close>, which
  the source does not keep). \<open>connectedClients\<close> is the \<open>Set\<close>, in insertion order.

  The package's part, from its documentation: \<open>terminate()\<close> and \<open>close()\<close> leave the
  socket in \<open>CLOSING\<close> (a \<open>CLOSED\<close> socket stays \<open>CLOSED\<close>); the \<open>close\<close> event is emitted
  once the socket is \<open>CLOSED\<close>; \<open>send\<close> and \<open>ping\<close> put a frame on the wire only when the
  socket is \<open>OPEN\<close>. An event is delivered for a socket the server has seen connect; a
  socket connects once.
\<close>

definition WS_MAX_CLIENTS :: nat where
  "WS_MAX_CLIENTS = 1000"

datatype ready_state = CONNECTING | OPEN | CLOSING | CLOSED

datatype ws_frame = Welcome | Subscribed "json option" | Block nat | Ping

record ws_client =
  readyState :: ready_state
  listening :: bool
  isAlive :: bool
  heartbeat :: bool
  outbox :: "ws_frame list"

record ws_server =
  sockets :: "nat \<rightharpoonup> ws_client"
  connectedClients :: "nat list"

datatype ws_event =
    Connection nat
  | Pong nat
  | HeartbeatTick nat
  | Message nat "js_error + json"
  | PeerClosing nat
  | Close nat
  | NewBlock nat

definition ws_initial :: ws_server where
  "ws_initial = \<lparr>sockets = Map.empty, connectedClients = []\<rparr>"

definition ws_send :: "ws_frame \<Rightarrow> ws_client \<Rightarrow> ws_client" where
  "ws_send frame cl = (if readyState cl = OPEN then cl\<lparr>outbox := outbox cl @ [frame]\<rparr> else cl)"

definition ws_terminate :: "ws_client \<Rightarrow> ws_client" where
  "ws_terminate cl = (if readyState cl = CLOSED then cl else cl\<lparr>readyState := CLOSING\<rparr>)"

text \<open>\<open>connectedClients.forEach\<close> of the block handler.\<close>

fun broadcast :: "ws_frame \<Rightarrow> nat list \<Rightarrow> (nat \<rightharpoonup> ws_client) \<Rightarrow> (nat \<rightharpoonup> ws_client)" where
  "broadcast frame [] socks = socks"
| "broadcast frame (c # cs) socks =
     broadcast frame cs
       (case socks c of
          None \<Rightarrow> socks
        | Some cl \<Rightarrow> if readyState cl = OPEN then socks(c \<mapsto> cl\<lparr>outbox := outbox cl @ [frame]\<rparr>) else socks)"

fun ws_step :: "ws_server \<Rightarrow> ws_event \<Rightarrow> ws_server" where
  "ws_step s (Connection c) =
     (case sockets s c of
        Some cl \<Rightarrow> s
      | None \<Rightarrow>
          if length (connectedClients s) \<ge> WS_MAX_CLIENTS then
            s\<lparr>sockets := (sockets s)(c \<mapsto>
                 \<lparr>readyState = CLOSING, listening = False, isAlive = False, heartbeat = False, outbox = []\<rparr>)\<rparr>
          else
            s\<lparr>sockets := (sockets s)(c \<mapsto>
                 \<lparr>readyState = OPEN, listening = True, isAlive = True, heartbeat = True, outbox = [Welcome]\<rparr>),
              connectedClients := connectedClients s @ [c]\<rparr>)"
| "ws_step s (Pong c) =
     (case sockets s c of
        None \<Rightarrow> s
      | Some cl \<Rightarrow> if listening cl then s\<lparr>sockets := (sockets s)(c \<mapsto> cl\<lparr>isAlive := True\<rparr>)\<rparr> else s)"
| "ws_step s (HeartbeatTick c) =
     (case sockets s c of
        None \<Rightarrow> s
      | Some cl \<Rightarrow>
          if \<not> heartbeat cl then s
          else if \<not> isAlive cl then
            s\<lparr>sockets := (sockets s)(c \<mapsto> ws_terminate (cl\<lparr>heartbeat := False\<rparr>))\<rparr>
          else s\<lparr>sockets := (sockets s)(c \<mapsto> ws_send Ping (cl\<lparr>isAlive := False\<rparr>))\<rparr>)"
| "ws_step s (Message c parsed) =
     (case sockets s c of
        None \<Rightarrow> s
      | Some cl \<Rightarrow>
          if \<not> listening cl then s
          else
            (case parsed of
               Inl error \<Rightarrow> s
             | Inr msg \<Rightarrow>
                 (case js_field msg ''type'' of
                    Inl error \<Rightarrow> s
                  | Inr ty \<Rightarrow>
                      if ty = Some (JStr ''subscribe'') then
                        s\<lparr>sockets := (sockets s)(c \<mapsto>
                             ws_send (Subscribed (case js_field msg ''channel'' of Inl e \<Rightarrow> None | Inr ch \<Rightarrow> ch)) cl)\<rparr>
                      else s)))"
| "ws_step s (PeerClosing c) =
     (case sockets s c of
        None \<Rightarrow> s
      | Some cl \<Rightarrow> s\<lparr>sockets := (sockets s)(c \<mapsto> ws_terminate cl)\<rparr>)"
| "ws_step s (Close c) =
     (case sockets s c of
        None \<Rightarrow> s
      | Some cl \<Rightarrow>
          if listening cl then
            s\<lparr>sockets := (sockets s)(c \<mapsto> cl\<lparr>readyState := CLOSED, heartbeat := False\<rparr>),
              connectedClients := removeAll c (connectedClients s)\<rparr>
          else s\<lparr>sockets := (sockets s)(c \<mapsto> cl\<lparr>readyState := CLOSED\<rparr>)\<rparr>)"
| "ws_step s (NewBlock n) = s\<lparr>sockets := broadcast (Block n) (connectedClients s) (sockets s)\<rparr>"

definition ws_run :: "ws_server \<Rightarrow> ws_event list \<Rightarrow> ws_server" where
  "ws_run s evs = foldl ws_step s evs"

text \<open>The frames sent to a socket, and whether it is open.\<close>

definition frames_to :: "ws_server \<Rightarrow> nat \<Rightarrow> ws_frame list" where
  "frames_to s c = (case sockets s c of None \<Rightarrow> [] | Some cl \<Rightarrow> outbox cl)"

definition is_open :: "ws_server \<Rightarrow> nat \<Rightarrow> bool" where
  "is_open s c = (case sockets s c of None \<Rightarrow> False | Some cl \<Rightarrow> readyState cl = OPEN)"

text \<open>
  Two facts about every socket that hold in all reachable states: an armed heartbeat
  belongs to a socket with listeners, and a socket whose heartbeat is not armed is not
  open.
\<close>

definition ws_inv :: "ws_server \<Rightarrow> bool" where
  "ws_inv s = (\<forall>c cl. sockets s c = Some cl \<longrightarrow>
                 (heartbeat cl \<longrightarrow> listening cl) \<and> (\<not> heartbeat cl \<longrightarrow> readyState cl \<noteq> OPEN))"


section \<open>Redis commands sent during a request\<close>

text \<open>
  The commands the cache has sent to Redis so far (none without a client), and the
  relation between the cache before and after a request which says that the request
  only added commands to that list and that none of the added ones is a \<open>SETEX\<close>.
\<close>

definition redis_commands :: "cache_manager \<Rightarrow> redis_command list" where
  "redis_commands cm = (case redisClient cm of None \<Rightarrow> [] | Some r \<Rightarrow> commands r)"

fun is_setex :: "redis_command \<Rightarrow> bool" where
  "is_setex (SETEX key ttl s) = True"
| "is_setex cmd = False"

definition sends_no_setex :: "cache_manager \<Rightarrow> cache_manager \<Rightarrow> bool" where
  "sends_no_setex cm cm' =
     (length (redis_commands cm) \<le> length (redis_commands cm') \<and>
      take (length (redis_commands cm)) (redis_commands cm') = redis_commands cm \<and>
      list_all (\<lambda>cmd. \<not> is_setex cmd) (drop (length (redis_commands cm)) (redis_commands cm')))"


section \<open>Example inputs\<close>


text \<open>
  A parser and a serializer for the few JSON texts the examples store, and three caches
  with Redis configured: one that holds the key locally, one that holds it in Redis
  only, and (\<open>CacheManager True\<close>) an empty one.
\<close>

definition example_parse :: "string \<Rightarrow> js_error + json" where
  "example_parse s =
     (if s = ''[1]'' then Inr (JArr [JNum 1])
      else if s = ''null'' then Inr JNull
      else Inl (Error ''Unexpected token''))"

definition example_stringify :: "json \<Rightarrow> js_error + string" where
  "example_stringify j =
     (if j = JArr [JNum 1] then Inr ''[1]''
      else if j = JNull then Inr ''null''
      else Inr ''{}'')"

definition hot_cache :: cache_manager where
  "hot_cache = (CacheManager True)\<lparr>memoryCache := \<lparr>stdTTL = CACHE_TTL, entries = [(''k'', JStr ''local'', 0)]\<rparr>\<rparr>"

definition warm_cache :: cache_manager where
  "warm_cache = (CacheManager True)\<lparr>redisClient :=
      Some \<lparr>keyspace = [''k'' \<mapsto> (''[1]'', None)], commands = []\<rparr>\<rparr>"


text \<open>
  A request environment in which \<open>vitalik.eth\<close> resolves on every provider and nothing
  else does, no address has a reverse record, and Redis answers; and the application
  state right after start, with Redis configured.
\<close>

definition example_env :: env where
  "example_env =
     \<lparr>JSON_parse = example_parse, JSON_stringify = example_stringify,
      isAddress = (\<lambda>s. length s = 42 \<and> take 2 s = ''0x''),
      resolveName = (\<lambda>attempt p name.
         if name = ''vitalik.eth'' then Inr (Some ''0xd8da6bf26964af9d7eed9e03e53415d37aa96045'') else Inr None),
      lookupAddress = (\<lambda>attempt p address. Inr None),
      getResolver = (\<lambda>attempt p name. Inr None),
      clock = 1000, timestamp = ''2024-01-01T00:00:00.000Z'',
      redis_get_fault = None, redis_set_fault = None\<rparr>"

definition example_app :: app where
  "example_app = \<lparr>cache = CacheManager True, providerManager = ProviderManager RPC_PROVIDERS\<rparr>"


text \<open>
  Batch elements: a resolve of a name that no provider knows, a resolve of the known
  name, a reverse lookup; a batch of the three in which the providers fail for the
  second element; and its request body.
\<close>

definition ghost_op :: json where
  "ghost_op = JObj [(''type'', JStr ''resolve''), (''name'', JStr ''ghost.eth'')]"


definition vitalik_op :: json where
  "vitalik_op = JObj [(''type'', JStr ''resolve''), (''name'', JStr ''vitalik.eth'')]"

definition reverse_op :: json where
  "reverse_op = JObj [(''type'', JStr ''reverse''),
                      (''address'', JStr ''0x0000000000000000000000000000000000000001'')]"

definition example_envs :: "nat \<Rightarrow> env" where
  "example_envs i =
     (if i = 1 then example_env\<lparr>resolveName := (\<lambda>attempt p name. Inl (Error ''timeout''))\<rparr>
      else example_env)"

definition example_body :: json where
  "example_body = JObj [(''operations'', JArr [vitalik_op, ghost_op, reverse_op])]"


text \<open>A cache after 7 hits and 3 misses.\<close>

definition seven_of_ten :: cache_manager where
  "seven_of_ten = (CacheManager False)\<lparr>stats := \<lparr>hits = 7, misses = 3, sets = 3\<rparr>\<rparr>"

section \<open>Provider rotation: the retry loop in closed form\<close>








lemma loop_all_fail:
  assumes "\<forall>k p. isl (operation k p)"
  shows "case executeWithFallback_loop operation m a le pm of (r, pm', calls) \<Rightarrow>
           map fst calls = [a..<m] \<and>
           r = Inl (exhausted m (if m \<le> a then le
                 else Some (projl (operation (fst (last calls)) (snd (last calls))))))"
proof (induction "m - a" arbitrary: a le pm)
  case 0
  then show ?case
    by (subst executeWithFallback_loop.simps) (simp add: exhausted_def)
next
  case (Suc d)
  then have am: "a < m" and d: "d = m - (a + 1)" by simp_all
  let ?p = "providers_at (providers pm) (currentIndex pm)"
  from assms have "isl (operation a ?p)" by blast
  then obtain e where e: "operation a ?p = Inl e"
    by (cases "operation a ?p") auto
  define pm2 where "pm2 = pm\<lparr>failureCount := (failureCount pm)(currentIndex pm \<mapsto>
                        (case failureCount pm (currentIndex pm) of None \<Rightarrow> 0 | Some c \<Rightarrow> c) + 1),
                      currentIndex := next_index (length (providers pm)) (currentIndex pm)\<rparr>"
  have unfold: "executeWithFallback_loop operation m a le pm =
     (case executeWithFallback_loop operation m (a + 1) (Some e) pm2 of
        (r, pm3, calls) \<Rightarrow> (r, pm3, (a, ?p) # calls))"
    using am e
    by (subst executeWithFallback_loop.simps) (simp add: Let_def pm2_def)
  obtain r pm3 calls where run:
    "executeWithFallback_loop operation m (a + 1) (Some e) pm2 = (r, pm3, calls)"
    by (cases "executeWithFallback_loop operation m (a + 1) (Some e) pm2") auto
  from Suc.hyps(1)[OF d, of "Some e" pm2] run
  have ih: "map fst calls = [a + 1..<m]"
    "r = Inl (exhausted m (if m \<le> a + 1 then Some e
                 else Some (projl (operation (fst (last calls)) (snd (last calls))))))"
    by simp_all
  have upt: "[a..<m] = a # [a + 1..<m]" using am by (simp add: upt_conv_Cons)
  have "(map fst calls = []) = ([a + 1..<m] = [])" using ih(1) by simp
  then have "calls = [] \<longleftrightarrow> m \<le> a + 1" by auto
  then show ?case
    unfolding unfold run using ih am e upt by auto
qed

text \<open>
  Claim C1. When the operation fails on every attempt, \<open>executeWithFallback\<close> invokes it
  exactly as many times as the attempt budget allows (3 when no budget is given), on
  attempts \<open>0, 1, ...\<close> in order, and is then rejected with the error ``All providers
  failed after \<open>n\<close> attempts: \<open>m\<close>'', where \<open>n\<close> is the budget and \<open>m\<close> the message of
  the error of the last invocation (\<open>undefined\<close> when the budget is 0 and nothing was
  attempted). This holds from every rotation state.
\<close>

theorem executeWithFallback_exhausted:
  assumes "\<forall>k p. isl (operation k p)"
  shows "case executeWithFallback operation maxRetries pm of (r, pm', calls) \<Rightarrow>
           length calls = attempt_budget maxRetries \<and>
           map fst calls = [0..<attempt_budget maxRetries] \<and>
           r = Inl (Error (''All providers failed after '' @ show_nat (attempt_budget maxRetries) @
                  '' attempts: '' @
                  (if attempt_budget maxRetries = 0 then ''undefined''
                   else message (projl (operation (attempt_budget maxRetries - 1) (snd (last calls)))))))"
proof -
  obtain r pm' calls where run:
    "executeWithFallback_loop operation (attempt_budget maxRetries) 0 None pm = (r, pm', calls)"
    by (cases "executeWithFallback_loop operation (attempt_budget maxRetries) 0 None pm") auto
  from loop_all_fail[OF assms, where m="attempt_budget maxRetries" and a=0 and le=None and pm=pm] run
  have m: "map fst calls = [0..<attempt_budget maxRetries]"
    and r: "r = Inl (exhausted (attempt_budget maxRetries) (if attempt_budget maxRetries \<le> 0 then None
                 else Some (projl (operation (fst (last calls)) (snd (last calls))))))"
    by simp_all
  have len: "length calls = attempt_budget maxRetries"
    using arg_cong[OF m, of length] by simp
  have "fst (last calls) = attempt_budget maxRetries - 1" if "attempt_budget maxRetries \<noteq> 0"
  proof -
    from that len have ne: "calls \<noteq> []" by auto
    then have "fst (last calls) = last (map fst calls)" by (simp add: last_map)
    also have "\<dots> = attempt_budget maxRetries - 1" using that unfolding m by (simp add: last_upt)
    finally show ?thesis .
  qed
  then show ?thesis
    using run r len m
    by (simp add: executeWithFallback_def attempt_budget_def[symmetric] exhausted_def)
qed



text \<open>
  With the default budget and an operation whose \<open>k\<close>-th attempt fails with ``timeout
  \<open>k\<close>'', three attempts are made and the error carries the message of attempt 2.
\<close>

theorem executeWithFallback_exhausted_witness:
  "(\<forall>k p. isl ((Inl (Error (''timeout '' @ show_nat k)) :: js_error + string))) \<and>
   fst (executeWithFallback (\<lambda>k p. Inl (Error (''timeout '' @ show_nat k)) :: js_error + string) None
          (ProviderManager RPC_PROVIDERS)) =
     Inl (Error ''All providers failed after 3 attempts: timeout 2'') \<and>
   length (snd (snd (executeWithFallback (\<lambda>k p. Inl (Error (''timeout '' @ show_nat k)) :: js_error + string)
          None (ProviderManager RPC_PROVIDERS)))) = 3"
  using executeWithFallback_exhausted[of "\<lambda>k p. Inl (Error (''timeout '' @ show_nat k)) :: js_error + string"
          None "ProviderManager RPC_PROVIDERS"]
  by (simp add: attempt_budget_def show_nat.simps digit_char_def Error_def split: prod.splits)

text \<open>
  Every call falls under the next theorem for some \<open>k\<close>: the number of attempts that fail
  before the first one that succeeds, or the budget when none does.
\<close>

lemma leading_failures:
  fixes outcome :: "nat \<Rightarrow> 'e + 'a"
  shows "\<exists>k\<le>m. (\<forall>j<k. isl (outcome j)) \<and> (k < m \<longrightarrow> \<not> isl (outcome k))"
proof (cases "\<exists>j<m. \<not> isl (outcome j)")
  case True
  define k where "k = (LEAST j. \<not> isl (outcome j))"
  from True obtain j where j: "j < m" "\<not> isl (outcome j)" by blast
  have 1: "\<not> isl (outcome k)" unfolding k_def using j(2) by (rule LeastI)
  have 2: "k \<le> j" unfolding k_def using j(2) by (rule Least_le)
  have 3: "isl (outcome i)" if "i < k" for i
    using that not_less_Least[of i "\<lambda>j. \<not> isl (outcome j)"] unfolding k_def by blast
  from 1 2 3 j(1) show ?thesis by (intro exI[of _ k]) auto
next
  case False
  then show ?thesis by (intro exI[of _ m]) auto
qed



section \<open>The cache\<close>

lemma NodeCache_get_after_set:
  "NodeCache_get now key (NodeCache_set now key v ttl c) = (Some v, NodeCache_set now key v ttl c)"
  by (simp add: NodeCache_get_def NodeCache_set_def Let_def update_conv' split: option.splits)

text \<open>
  Claim C3. \<open>get(key)\<close>: when the process-local tier answers with a value, that value is
  returned and counted as a hit and the Redis client is left untouched (no command is
  sent); when the local tier has nothing and Redis answers the \<open>GET\<close> with a non-empty
  string that parses, the parsed value is stored in the local tier (where a read at
  that moment finds it), counted as a hit and returned; when the local tier has nothing
  and Redis is not configured or answers that the key is absent, a miss is counted and
  \<open>null\<close> is returned.
\<close>

theorem CacheManager_get_read_path:
  "(fst (NodeCache_get now key (memoryCache cm)) = Some v \<longrightarrow>
      (case CacheManager_get parse now fault key cm of
         (answer, cm') \<Rightarrow>
           answer = v \<and> hits (stats cm') = hits (stats cm) + 1 \<and> misses (stats cm') = misses (stats cm) \<and>
           redisClient cm' = redisClient cm)) \<and>
   (fst (NodeCache_get now key (memoryCache cm)) = None \<and> redisClient cm = Some client \<and> fault = None \<and>
    redis_lookup now (keyspace client) key = Some s \<and> s \<noteq> [] \<and> parse s = Inr v \<longrightarrow>
      (case CacheManager_get parse now fault key cm of
         (answer, cm') \<Rightarrow>
           answer = v \<and> fst (NodeCache_get now key (memoryCache cm')) = Some v \<and>
           hits (stats cm') = hits (stats cm) + 1 \<and> misses (stats cm') = misses (stats cm))) \<and>
   (fst (NodeCache_get now key (memoryCache cm)) = None \<and>
    (redisClient cm = None \<or>
     (redisClient cm = Some client \<and> fault = None \<and> redis_lookup now (keyspace client) key = None)) \<longrightarrow>
      (case CacheManager_get parse now fault key cm of
         (answer, cm') \<Rightarrow>
           answer = JNull \<and> misses (stats cm') = misses (stats cm) + 1 \<and> hits (stats cm') = hits (stats cm) \<and>
           fst (NodeCache_get now key (memoryCache cm')) = None))"
proof (intro conjI impI)
  assume "fst (NodeCache_get now key (memoryCache cm)) = Some v"
  then obtain mc where "NodeCache_get now key (memoryCache cm) = (Some v, mc)"
    by (cases "NodeCache_get now key (memoryCache cm)") auto
  then show "case CacheManager_get parse now fault key cm of
         (answer, cm') \<Rightarrow>
           answer = v \<and> hits (stats cm') = hits (stats cm) + 1 \<and> misses (stats cm') = misses (stats cm) \<and>
           redisClient cm' = redisClient cm"
    by (simp add: CacheManager_get_def count_hit_def)
next
  assume a: "fst (NodeCache_get now key (memoryCache cm)) = None \<and> redisClient cm = Some client \<and> fault = None \<and>
    redis_lookup now (keyspace client) key = Some s \<and> s \<noteq> [] \<and> parse s = Inr v"
  then obtain mc where "NodeCache_get now key (memoryCache cm) = (None, mc)"
    by (cases "NodeCache_get now key (memoryCache cm)") auto
  with a show "case CacheManager_get parse now fault key cm of
         (answer, cm') \<Rightarrow>
           answer = v \<and> fst (NodeCache_get now key (memoryCache cm')) = Some v \<and>
           hits (stats cm') = hits (stats cm) + 1 \<and> misses (stats cm') = misses (stats cm)"
    by (simp add: CacheManager_get_def count_hit_def redis_send_def NodeCache_get_after_set)
next
  assume a: "fst (NodeCache_get now key (memoryCache cm)) = None \<and>
    (redisClient cm = None \<or>
     (redisClient cm = Some client \<and> fault = None \<and> redis_lookup now (keyspace client) key = None))"
  then obtain mc where mc: "NodeCache_get now key (memoryCache cm) = (None, mc)"
    by (cases "NodeCache_get now key (memoryCache cm)") auto
  then have "fst (NodeCache_get now key mc) = None"
    by (auto simp: NodeCache_get_def delete_conv' split: option.splits prod.splits if_splits)
  with a mc show "case CacheManager_get parse now fault key cm of
         (answer, cm') \<Rightarrow>
           answer = JNull \<and> misses (stats cm') = misses (stats cm) + 1 \<and> hits (stats cm') = hits (stats cm) \<and>
           fst (NodeCache_get now key (memoryCache cm')) = None"
    by (auto simp: CacheManager_get_def count_miss_def redis_send_def)
qed


text \<open>The three cases of the read path on the example caches.\<close>

theorem CacheManager_get_read_path_witness:
  "(case CacheManager_get example_parse 1000 None ''k'' hot_cache of
      (answer, cm') \<Rightarrow> answer = JStr ''local'' \<and> hits (stats cm') = 1 \<and> redisClient cm' = redisClient hot_cache) \<and>
   (case CacheManager_get example_parse 1000 None ''k'' warm_cache of
      (answer, cm') \<Rightarrow> answer = JArr [JNum 1] \<and> hits (stats cm') = 1 \<and>
         fst (NodeCache_get 1000 ''k'' (memoryCache cm')) = Some (JArr [JNum 1])) \<and>
   (case CacheManager_get example_parse 1000 None ''k'' (CacheManager True) of
      (answer, cm') \<Rightarrow> answer = JNull \<and> misses (stats cm') = 1 \<and> hits (stats cm') = 0)"
proof -
  have hot: "fst (NodeCache_get 1000 ''k'' (memoryCache hot_cache)) = Some (JStr ''local'')"
    by (simp add: hot_cache_def NodeCache_get_def)
  have warm: "fst (NodeCache_get 1000 ''k'' (memoryCache warm_cache)) = None \<and>
      redisClient warm_cache = Some \<lparr>keyspace = [''k'' \<mapsto> (''[1]'', None)], commands = []\<rparr> \<and>
      (None :: js_error option) = None \<and>
      redis_lookup 1000 (keyspace \<lparr>keyspace = [''k'' \<mapsto> (''[1]'', None)], commands = []\<rparr>) ''k'' = Some ''[1]'' \<and>
      ''[1]'' \<noteq> [] \<and> example_parse ''[1]'' = Inr (JArr [JNum 1])"
    by (simp add: warm_cache_def CacheManager_def NodeCache_def NodeCache_get_def redis_lookup_def example_parse_def)
  have cold: "fst (NodeCache_get 1000 ''k'' (memoryCache (CacheManager True))) = None \<and>
      (redisClient (CacheManager True) = None \<or>
       (redisClient (CacheManager True) = Some \<lparr>keyspace = Map.empty, commands = []\<rparr> \<and>
        (None :: js_error option) = None \<and>
        redis_lookup 1000 (keyspace \<lparr>keyspace = Map.empty, commands = []\<rparr>) ''k'' = None))"
    by (simp add: CacheManager_def NodeCache_def NodeCache_get_def redis_lookup_def)
  from CacheManager_get_read_path[where now=1000 and key="''k''" and cm=hot_cache
        and v="JStr ''local''" and parse=example_parse and fault=None] hot
  have 1: "case CacheManager_get example_parse 1000 None ''k'' hot_cache of
      (answer, cm') \<Rightarrow> answer = JStr ''local'' \<and> hits (stats cm') = 1 \<and> redisClient cm' = redisClient hot_cache"
    by (auto simp: hot_cache_def CacheManager_def split: prod.splits)
  from CacheManager_get_read_path[where now=1000 and key="''k''" and cm=warm_cache
        and v="JArr [JNum 1]" and parse=example_parse and fault=None and s="''[1]''"
        and client="\<lparr>keyspace = [''k'' \<mapsto> (''[1]'', None)], commands = []\<rparr>"] warm
  have 2: "case CacheManager_get example_parse 1000 None ''k'' warm_cache of
      (answer, cm') \<Rightarrow> answer = JArr [JNum 1] \<and> hits (stats cm') = 1 \<and>
         fst (NodeCache_get 1000 ''k'' (memoryCache cm')) = Some (JArr [JNum 1])"
    by (auto simp: warm_cache_def CacheManager_def split: prod.splits)
  from CacheManager_get_read_path[where now=1000 and key="''k''" and cm="CacheManager True"
        and parse=example_parse and fault=None
        and client="\<lparr>keyspace = Map.empty, commands = []\<rparr>"] cold
  have 3: "case CacheManager_get example_parse 1000 None ''k'' (CacheManager True) of
      (answer, cm') \<Rightarrow> answer = JNull \<and> misses (stats cm') = 1 \<and> hits (stats cm') = 0"
    by (auto simp: CacheManager_def split: prod.splits)
  from 1 2 3 show ?thesis by blast
qed


text \<open>
  Claim C4. \<open>set(key, value, ttl?)\<close> is never rejected: whatever the serializer and the
  Redis command do, the promise is fulfilled, the value is in the process-local tier
  and the \<open>sets\<close> counter has grown by one. When the Redis command is rejected the error
  is written to the console and goes no further.
\<close>

theorem CacheManager_set_never_raises:
  "case CacheManager_set stringify now fault key v ttl cm of
     (outcome, cm') \<Rightarrow>
       outcome = Inr () \<and>
       fst (NodeCache_get now key (memoryCache cm')) = Some v \<and>
       sets (stats cm') = sets (stats cm) + 1 \<and>
       (\<forall>client e serialized.
          redisClient cm = Some client \<and> stringify v = Inr serialized \<and> fault = Some e \<longrightarrow>
          console cm' = console cm @ [Redis_set_error e] \<and>
          (\<exists>client'. redisClient cm' = Some client' \<and> keyspace client' = keyspace client))"
  by (auto simp: CacheManager_set_def Let_def NodeCache_get_after_set redis_send_def
           split: option.splits sum.splits prod.splits)

text \<open>A write while Redis refuses connections.\<close>

theorem CacheManager_set_never_raises_witness:
  "case CacheManager_set example_stringify 1000 (Some (Error ''ECONNREFUSED'')) ''k'' (JArr [JNum 1]) None
          (CacheManager True) of
     (outcome, cm') \<Rightarrow>
       outcome = Inr () \<and>
       fst (NodeCache_get 1000 ''k'' (memoryCache cm')) = Some (JArr [JNum 1]) \<and>
       sets (stats cm') = 1 \<and>
       console cm' = [Redis_set_error (Error ''ECONNREFUSED'')]"
  using CacheManager_set_never_raises[where stringify=example_stringify and now=1000
          and fault="Some (Error ''ECONNREFUSED'')" and key="''k''" and v="JArr [JNum 1]" and ttl=None
          and cm="CacheManager True"]
  by (auto simp: CacheManager_def example_stringify_def split: prod.splits)

section \<open>The hit rate\<close>

subsection \<open>Rounding to a double loses at most one part in \<open>2^53\<close>\<close>

lemma round_half_even_bound:
  assumes "0 < den"
  shows "\<bar>2 * int (round_half_even num den) * int den - 2 * int num\<bar> \<le> int den"
proof -
  define q where "q = num div den"
  define r where "r = num mod den"
  have num: "num = q * den + r" by (simp add: q_def r_def)
  have r: "r < den" using assms by (simp add: r_def)
  have num': "int num = int q * int den + int r" unfolding num by simp
  consider "2 * r < den" | "den < 2 * r" | "2 * r = den" by linarith
  then show ?thesis
  proof cases
    case 1
    then have "round_half_even num den = q"
      by (simp add: round_half_even_def Let_def q_def r_def)
    then show ?thesis using 1 unfolding num' by (simp add: algebra_simps)
  next
    case 2
    then have "round_half_even num den = q + 1"
      by (simp add: round_half_even_def Let_def q_def r_def)
    then show ?thesis using 2 r unfolding num' by (simp add: algebra_simps)
  next
    case 3
    then have "round_half_even num den = q \<or> round_half_even num den = q + 1"
      by (simp add: round_half_even_def Let_def q_def r_def)
    then show ?thesis using 3 unfolding num' by (auto simp: algebra_simps)
  qed
qed

text \<open>The exponent chosen by binary64 is at most the binary logarithm of the quotient.\<close>

lemma exponent_below:
  fixes a b :: nat
  assumes "0 < a" "0 < b"
  defines "k \<equiv> bitlen (int a) - bitlen (int b)"
  defines "e \<equiv> (if (if 0 \<le> k then b * 2 ^ nat k \<le> a else b \<le> a * 2 ^ nat (- k)) then k else k - 1)"
  shows "(0 \<le> e \<longrightarrow> b * 2 ^ nat e \<le> a) \<and> (e < 0 \<longrightarrow> b \<le> a * 2 ^ nat (- e))"
proof (cases "if 0 \<le> k then b * 2 ^ nat k \<le> a else b \<le> a * 2 ^ nat (- k)")
  case True
  then have "e = k" by (simp add: e_def)
  with True show ?thesis by (auto split: if_splits)
next
  case False
  then have e: "e = k - 1" by (simp add: e_def)
  have la: "2 ^ nat (bitlen (int a) - 1) \<le> int a" and lb: "int b < 2 ^ nat (bitlen (int b))"
    using bitlen_bounds[of "int a"] bitlen_bounds[of "int b"] assms by simp_all
  have ua: "int a < 2 ^ nat (bitlen (int a))"
    using bitlen_bounds[of "int a"] assms by simp
  have pa: "0 < bitlen (int a)"
  proof (rule ccontr)
    assume "\<not> 0 < bitlen (int a)"
    then have "nat (bitlen (int a)) = 0" by simp
    with ua assms show False by simp
  qed
  have pb: "0 < bitlen (int b)"
  proof (rule ccontr)
    assume "\<not> 0 < bitlen (int b)"
    then have "nat (bitlen (int b)) = 0" by simp
    with lb assms show False by simp
  qed
  show ?thesis
  proof (intro conjI impI)
    assume "0 \<le> e"
    then have kk: "1 \<le> k" using e by simp
    have "nat (bitlen (int a) - 1) = nat (bitlen (int b)) + nat e"
      using kk pa pb unfolding e k_def by linarith
    then have "(2::int) ^ nat (bitlen (int a) - 1) = 2 ^ nat (bitlen (int b)) * 2 ^ nat e"
      by (simp add: power_add)
    moreover have "int b * 2 ^ nat e \<le> 2 ^ nat (bitlen (int b)) * 2 ^ nat e"
      using lb by (intro mult_right_mono) simp_all
    ultimately have "int b * 2 ^ nat e \<le> int a" using la by linarith
    then have "int (b * 2 ^ nat e) \<le> int a" by simp
    then show "b * 2 ^ nat e \<le> a" by (simp only: of_nat_le_iff)
  next
    assume "e < 0"
    then have kk: "k \<le> 0" using e by simp
    have "nat (bitlen (int b)) = nat (bitlen (int a) - 1) + nat (- e)"
      using kk pa pb unfolding e k_def by linarith
    then have "(2::int) ^ nat (bitlen (int b)) = 2 ^ nat (bitlen (int a) - 1) * 2 ^ nat (- e)"
      by (simp add: power_add)
    moreover have "2 ^ nat (bitlen (int a) - 1) * 2 ^ nat (- e) \<le> int a * 2 ^ nat (- e)"
      using la by (intro mult_right_mono) simp_all
    ultimately have "int b \<le> int a * 2 ^ nat (- e)" using lb by linarith
    then have "int b \<le> int (a * 2 ^ nat (- e))" by simp
    then show "b \<le> a * 2 ^ nat (- e)" by (simp only: of_nat_le_iff)
  qed
qed

lemma twice_abs: "\<bar>2 * x - 2 * y\<bar> \<le> c \<Longrightarrow> 2 * \<bar>x - y\<bar> \<le> (c::int)"
  by (simp add: abs_if split: if_splits)

lemma binary64_bound:
  fixes a b :: nat
  assumes a: "0 < a" and b: "0 < b"
  shows "0 < snd (binary64 a b) \<and>
         2 ^ 53 * \<bar>int (fst (binary64 a b)) * int b - int a * int (snd (binary64 a b))\<bar>
           \<le> int a * int (snd (binary64 a b))"
proof -
  define k where "k \<equiv> bitlen (int a) - bitlen (int b)"
  define e where "e \<equiv> (if (if 0 \<le> k then b * 2 ^ nat k \<le> a else b \<le> a * 2 ^ nat (- k)) then k else k - 1)"
  define s where "s = 52 - e"
  define P :: nat where "P = 2 ^ 52"
  have P53: "(2::int) ^ 53 = 2 * int P" by (simp add: P_def)
  have E: "(0 \<le> e \<longrightarrow> b * 2 ^ nat e \<le> a) \<and> (e < 0 \<longrightarrow> b \<le> a * 2 ^ nat (- e))"
    unfolding e_def k_def by (rule exponent_below[OF a b])
  have unfold: "binary64 a b =
      (if 0 \<le> s then (round_half_even (a * 2 ^ nat s) b, 2 ^ nat s)
       else (round_half_even a (b * 2 ^ nat (- s)) * 2 ^ nat (- s), 1))"
    using a by (simp add: binary64_def Let_def k_def e_def s_def)
  show ?thesis
  proof (cases "0 \<le> s")
    case True
    define R where "R = round_half_even (a * 2 ^ nat s) b"
    define D :: nat where "D = 2 ^ nat s"
    have val: "fst (binary64 a b) = R" "snd (binary64 a b) = D"
      using True by (simp_all add: unfold R_def D_def)
    have D0: "0 < D" by (simp add: D_def)
    have rb: "\<bar>2 * int R * int b - 2 * int (a * D)\<bar> \<le> int b"
      unfolding R_def D_def by (rule round_half_even_bound[OF b])
    have big: "P * b \<le> a * D"
    proof (cases "0 \<le> e")
      case True
      with E have le: "b * 2 ^ nat e \<le> a" by simp
      have "52 = nat e + nat s" using True \<open>0 \<le> s\<close> by (simp add: s_def)
      then have "P = 2 ^ (nat e + nat s)" unfolding P_def by (simp only:)
      then have "P = 2 ^ nat e * D" unfolding D_def by (simp only: power_add)
      then have "P * b = (b * 2 ^ nat e) * D" by (simp only: mult_ac)
      also have "\<dots> \<le> a * D" using le by (rule mult_le_mono1)
      finally show ?thesis .
    next
      case False
      with E have le: "b \<le> a * 2 ^ nat (- e)" by simp
      have "nat s = nat (- e) + 52" using False by (simp add: s_def)
      then have "D = 2 ^ (nat (- e) + 52)" unfolding D_def by (simp only:)
      then have "D = 2 ^ nat (- e) * P" unfolding P_def by (simp only: power_add)
      then have "a * D = (a * 2 ^ nat (- e)) * P" by (simp only: mult_ac)
      moreover have "b * P \<le> (a * 2 ^ nat (- e)) * P" using le by (rule mult_le_mono1)
      ultimately show ?thesis by (simp only: mult.commute)
    qed
    then have "int (P * b) \<le> int (a * D)" by (simp only: of_nat_le_iff)
    then have big': "int P * int b \<le> int a * int D" by (simp only: of_nat_mult)
    from rb have "\<bar>2 * (int R * int b) - 2 * (int a * int D)\<bar> \<le> int b"
      by (simp only: of_nat_mult mult.assoc)
    then have "2 * \<bar>int R * int b - int a * int D\<bar> \<le> int b" by (rule twice_abs)
    then have "int P * (2 * \<bar>int R * int b - int a * int D\<bar>) \<le> int P * int b"
      by (intro mult_left_mono) simp_all
    with big' have "2 * int P * \<bar>int R * int b - int a * int D\<bar> \<le> int a * int D"
      by (simp only: mult_ac)
    then show ?thesis unfolding val P53 using D0 by simp
  next
    case False
    define t where "t = nat (- s)"
    define T :: nat where "T = 2 ^ t"
    define R where "R = round_half_even a (b * T)"
    have val: "fst (binary64 a b) = R * T" "snd (binary64 a b) = 1"
      using False by (simp_all add: unfold R_def t_def T_def)
    have den: "0 < b * T" using b by (simp add: T_def)
    have rb: "\<bar>2 * int R * int (b * T) - 2 * int a\<bar> \<le> int (b * T)"
      unfolding R_def by (rule round_half_even_bound[OF den])
    have e0: "0 \<le> e" and et: "nat e = 52 + t" using False by (simp_all add: s_def t_def)
    with E have "b * 2 ^ (52 + t) \<le> a" by simp
    then have "b * (P * T) \<le> a" unfolding P_def T_def by (simp only: power_add)
    then have "int (b * (P * T)) \<le> int a" by (simp only: of_nat_le_iff)
    then have big: "int P * (int b * int T) \<le> int a" by (simp only: of_nat_mult mult_ac)
    have "2 * int R * int (b * T) = 2 * (int R * int T * int b)" by simp
    with rb have "\<bar>2 * (int R * int T * int b) - 2 * int a\<bar> \<le> int b * int T"
      by (simp only: of_nat_mult)
    then have "2 * \<bar>int R * int T * int b - int a\<bar> \<le> int b * int T" by (rule twice_abs)
    then have "int P * (2 * \<bar>int R * int T * int b - int a\<bar>) \<le> int P * (int b * int T)"
      by (intro mult_left_mono) simp_all
    with big have "2 * int P * \<bar>int R * int T * int b - int a\<bar> \<le> int a"
      by (simp only: mult_ac)
    then show ?thesis unfolding val P53 by simp
  qed
qed

lemma rel_err_real:
  fixes N D a b :: nat
  assumes D: "0 < D" and b: "0 < b"
    and h: "2 ^ 53 * \<bar>int N * int b - int a * int D\<bar> \<le> int a * int D"
  shows "\<bar>real N / real D - real a / real b\<bar> \<le> (real a / real b) / 2 ^ 53"
proof -
  have "real_of_int (2 ^ 53 * \<bar>int N * int b - int a * int D\<bar>) \<le> real_of_int (int a * int D)"
    using h by (simp only: of_int_le_iff)
  then have r: "2 ^ 53 * \<bar>real N * real b - real a * real D\<bar> \<le> real a * real D"
    by simp
  have pos: "0 < real D * real b" using D b by simp
  have "real N / real D - real a / real b = (real N * real b - real a * real D) / (real D * real b)"
    using D b by (simp add: field_simps)
  then have "\<bar>real N / real D - real a / real b\<bar> = \<bar>real N * real b - real a * real D\<bar> / (real D * real b)"
    using pos by (simp add: abs_divide)
  also have "\<dots> \<le> (real a * real D / 2 ^ 53) / (real D * real b)"
    using r pos by (intro divide_right_mono) (simp_all add: field_simps)
  also have "\<dots> = (real a / real b) / 2 ^ 53"
    using D b by (simp add: field_simps)
  finally show ?thesis .
qed

lemma binary64_positive:
  fixes a b :: nat
  assumes "0 < a" "0 < b"
  shows "0 < fst (binary64 a b)"
proof (rule ccontr)
  assume "\<not> 0 < fst (binary64 a b)"
  then have z: "fst (binary64 a b) = 0" by simp
  from binary64_bound[OF assms] have D: "0 < snd (binary64 a b)"
    and h: "2 ^ 53 * \<bar>int (fst (binary64 a b)) * int b - int a * int (snd (binary64 a b))\<bar>
           \<le> int a * int (snd (binary64 a b))" by simp_all
  have "0 < int a * int (snd (binary64 a b))" using assms D by simp
  with h z show False by simp
qed

lemma toFixed2_bound:
  fixes N D :: nat
  assumes "0 < D"
  defines "n \<equiv> (200 * N + D) div (2 * D)"
  shows "\<bar>real n / 100 - real N / real D\<bar> \<le> 1 / 200"
proof -
  have lo: "n * (2 * D) \<le> 200 * N + D"
    unfolding n_def by (rule div_times_less_eq_dividend)
  have "0 < 2 * D" using assms(1) by simp
  from dividend_less_div_times[OF this, of "200 * N + D"]
  have "200 * N + D < 2 * D + n * (2 * D)" unfolding n_def .
  then have hi: "200 * N + D < (n + 1) * (2 * D)" by (simp add: algebra_simps)
  have "real (n * (2 * D)) \<le> real (200 * N + D)" using lo by (simp only: of_nat_le_iff)
  then have lo': "real n * (2 * real D) \<le> 200 * real N + real D" by simp
  have "real (200 * N + D) < real ((n + 1) * (2 * D))" using hi by (simp only: of_nat_less_iff)
  then have hi': "200 * real N + real D < real n * (2 * real D) + 2 * real D"
    by (simp add: algebra_simps)
  have D: "0 < real D" using assms(1) by simp
  have "real n / 100 - real N / real D = (real n * (2 * real D) - 200 * real N) / (200 * real D)"
    using D by (simp add: field_simps)
  then have "\<bar>real n / 100 - real N / real D\<bar> =
      \<bar>real n * (2 * real D) - 200 * real N\<bar> / (200 * real D)"
    using D by (simp only: abs_divide)
  moreover have "\<bar>real n * (2 * real D) - 200 * real N\<bar> \<le> real D"
    using lo' hi' by linarith
  ultimately have "\<bar>real n / 100 - real N / real D\<bar> \<le> real D / (200 * real D)"
    using D by (simp only: divide_right_mono less_imp_le mult_pos_pos zero_less_numeral)
  then show ?thesis using D by simp
qed

lemma hitRate_accuracy:
  fixes h m :: nat
  assumes t: "0 < h + m"
  defines "x \<equiv> (case binary64 h (h + m) of (num, den) \<Rightarrow> binary64 (num * 100) den)"
  defines "n \<equiv> (200 * fst x + snd x) div (2 * snd x)"
  shows "\<bar>real n / 100 - 100 * real h / real (h + m)\<bar> \<le> 1 / 200 + 1 / 10 ^ 13"
proof (cases "h = 0")
  case True
  then have "x = (0, 1)" by (simp add: x_def binary64_def)
  then have "n = 0" by (simp add: n_def)
  then show ?thesis using True by simp
next
  case False
  then have h: "0 < h" by simp
  define N1 where "N1 = fst (binary64 h (h + m))"
  define D1 where "D1 = snd (binary64 h (h + m))"
  define N2 where "N2 = fst (binary64 (N1 * 100) D1)"
  define D2 where "D2 = snd (binary64 (N1 * 100) D1)"
  have x: "x = (N2, D2)"
    by (simp add: x_def N1_def D1_def N2_def D2_def split: prod.splits)
  have n: "n = (200 * N2 + D2) div (2 * D2)" by (simp add: n_def x)
  from binary64_bound[OF h t] have D1: "0 < D1"
    and b1: "2 ^ 53 * \<bar>int N1 * int (h + m) - int h * int D1\<bar> \<le> int h * int D1"
    by (simp_all add: N1_def D1_def)
  have N1: "0 < N1 * 100" using binary64_positive[OF h t] by (simp add: N1_def)
  from binary64_bound[OF N1 D1] have D2: "0 < D2"
    and b2: "2 ^ 53 * \<bar>int N2 * int D1 - int (N1 * 100) * int D2\<bar> \<le> int (N1 * 100) * int D2"
    by (simp_all add: N2_def D2_def)
  define p where "p = real h / real (h + m)"
  define x1 where "x1 = real N1 / real D1"
  define x2 where "x2 = real N2 / real D2"
  have p0: "0 \<le> p" by (simp add: p_def)
  have "real h \<le> real (h + m)" by simp
  moreover have "0 < real (h + m)" using t by (simp only: of_nat_0_less_iff)
  ultimately have p1: "p \<le> 1" unfolding p_def by (simp only: divide_le_eq_1_pos)
  note p01 = p0 p1
  have e1: "\<bar>x1 - p\<bar> \<le> p / 2 ^ 53"
    unfolding x1_def p_def by (rule rel_err_real[OF D1 t b1])
  have "\<bar>x2 - real (N1 * 100) / real D1\<bar> \<le> (real (N1 * 100) / real D1) / 2 ^ 53"
    unfolding x2_def by (rule rel_err_real[OF D2 D1 b2])
  moreover have "real (N1 * 100) / real D1 = 100 * x1" by (simp add: x1_def)
  ultimately have e2: "\<bar>x2 - 100 * x1\<bar> \<le> (100 * x1) / 2 ^ 53"
    by (simp only:)
  have e3: "\<bar>real n / 100 - x2\<bar> \<le> 1 / 200"
    unfolding n x2_def by (rule toFixed2_bound[OF D2])
  have pow: "(2::real) ^ 53 = 9007199254740992" by simp
  have e1': "\<bar>x1 - p\<bar> \<le> p / 9007199254740992" using e1 unfolding pow .
  have e2': "\<bar>x2 - 100 * x1\<bar> \<le> (100 * x1) / 9007199254740992" using e2 unfolding pow .
  have "\<bar>real n / 100 - 100 * p\<bar> \<le> 1 / 200 + 1 / 10000000000000"
    using e1' e2' e3 p01 by linarith
  then show ?thesis by (simp add: p_def)
qed

subsection \<open>What \<open>toFixed(2)\<close> prints\<close>

lemma show_nat_small: "n < 10 \<Longrightarrow> show_nat n = [digit_char n]"
  by (subst show_nat.simps) simp

lemma show_nat_step: "10 \<le> n \<Longrightarrow> show_nat n = show_nat (n div 10) @ [digit_char (n mod 10)]"
  by (subst show_nat.simps) simp

lemma show_nat_nonempty: "show_nat n \<noteq> []"
  by (subst show_nat.simps) simp

lemma pad_split:
  "(let m = show_nat n;
        m' = (if length m \<le> 2 then replicate (3 - length m) CHR ''0'' @ m else m);
        k = length m'
    in take (k - 2) m' @ ''.'' @ drop (k - 2) m') = decimal2 n"
proof -
  consider "n < 10" | "10 \<le> n" "n < 100" | "100 \<le> n" by linarith
  then show ?thesis
  proof cases
    case 1
    then have "show_nat n = [digit_char n]" by (rule show_nat_small)
    moreover have "show_nat 0 = [CHR ''0'']" by (simp add: show_nat_small digit_char_def)
    moreover have "digit_char 0 = CHR ''0''" by (simp add: digit_char_def)
    ultimately show ?thesis using 1 by (simp add: decimal2_def Let_def numeral_3_eq_3)
  next
    case 2
    then have d: "n div 10 < 10" by simp
    have "show_nat n = [digit_char (n div 10), digit_char (n mod 10)]"
      using show_nat_step[OF 2(1)] show_nat_small[OF d] by simp
    moreover have "show_nat 0 = [CHR ''0'']" by (simp add: show_nat_small digit_char_def)
    ultimately show ?thesis using 2 d by (simp add: decimal2_def Let_def)
  next
    case 3
    then have a: "10 \<le> n" and b: "10 \<le> n div 10" by simp_all
    have c: "n div 10 div 10 = n div 100" by (simp add: div_mult2_eq[symmetric])
    have m: "show_nat n = show_nat (n div 100) @ [digit_char (n div 10 mod 10), digit_char (n mod 10)]"
      using show_nat_step[OF a] show_nat_step[OF b] c by simp
    have "0 < length (show_nat (n div 100))" using show_nat_nonempty by simp
    then show ?thesis unfolding m by (simp add: decimal2_def Let_def)
  qed
qed

lemma toFixed2_decimal2: "toFixed2 x = decimal2 ((200 * fst x + snd x) div (2 * snd x))"
  unfolding toFixed2_def using pad_split[of "(200 * fst x + snd x) div (2 * snd x)"]
  by (simp add: Let_def)

subsection \<open>Seven hits, three misses\<close>

lemma bitlen_values:
  "bitlen 7 = 3" "bitlen 10 = 4" "bitlen 630503947831869400 = 60" "bitlen 9007199254740992 = 54"
  by code_simp+

lemma binary64_7_10: "binary64 7 10 = (6305039478318694, 9007199254740992)"
  by (simp add: binary64_def round_half_even_def Let_def bitlen_values)

lemma binary64_70: "binary64 630503947831869400 9007199254740992 = (4925812092436480, 70368744177664)"
  by (simp add: binary64_def round_half_even_def Let_def bitlen_values)

lemma toFixed2_70: "toFixed2 (4925812092436480, 70368744177664) = ''70.00''"
  by (simp add: toFixed2_def Let_def show_nat.simps digit_char_def)

lemma hitRate_7_3:
  "toFixed2 (case binary64 7 10 of (num, den) \<Rightarrow> binary64 (num * 100) den) = ''70.00''"
  by (simp add: binary64_7_10 binary64_70 toFixed2_70)

text \<open>
  Claim C5. The hit rate that \<open>getStats\<close> reports is \<open>0.00%\<close> when there has been no
  lookup and \<open>70.00%\<close> after 7 hits and 3 misses. It is always the numeral of some
  \<open>n / 100\<close> with exactly two digits after the point, followed by the percent sign, and
  after at least one lookup \<open>n / 100\<close> is the percentage \<open>100 * hits / (hits + misses)\<close> up
  to the rounding to two decimals (half a hundredth) and the error of the two double
  precision operations (less than \<open>10^-13\<close>).
\<close>

theorem getStats_hitRate:
  "(hits (stats cm) + misses (stats cm) = 0 \<longrightarrow> hitRate (CacheManager_getStats cm) = ''0.00%'') \<and>
   (hits (stats cm) = 7 \<and> misses (stats cm) = 3 \<longrightarrow> hitRate (CacheManager_getStats cm) = ''70.00%'') \<and>
   (\<exists>n. hitRate (CacheManager_getStats cm) = decimal2 n @ ''%'' \<and>
        (0 < hits (stats cm) + misses (stats cm) \<longrightarrow>
           \<bar>real n / 100 - 100 * real (hits (stats cm)) / real (hits (stats cm) + misses (stats cm))\<bar>
             \<le> 1 / 200 + 1 / 10 ^ 13))"
proof (intro conjI impI)
  assume "hits (stats cm) + misses (stats cm) = 0"
  then show "hitRate (CacheManager_getStats cm) = ''0.00%''"
    by (simp add: CacheManager_getStats_def)
next
  assume "hits (stats cm) = 7 \<and> misses (stats cm) = 3"
  then show "hitRate (CacheManager_getStats cm) = ''70.00%''"
    using hitRate_7_3 by (simp add: CacheManager_getStats_def Let_def)
next
  let ?h = "hits (stats cm)" and ?m = "misses (stats cm)"
  let ?x = "case binary64 ?h (?h + ?m) of (num, den) \<Rightarrow> binary64 (num * 100) den"
  show "\<exists>n. hitRate (CacheManager_getStats cm) = decimal2 n @ ''%'' \<and>
        (0 < ?h + ?m \<longrightarrow> \<bar>real n / 100 - 100 * real ?h / real (?h + ?m)\<bar> \<le> 1 / 200 + 1 / 10 ^ 13)"
  proof (cases "0 < ?h + ?m")
    case True
    have "hitRate (CacheManager_getStats cm) = toFixed2 ?x @ ''%''"
      using True by (simp add: CacheManager_getStats_def Let_def)
    then have "hitRate (CacheManager_getStats cm) =
        decimal2 ((200 * fst ?x + snd ?x) div (2 * snd ?x)) @ ''%''"
      by (simp only: toFixed2_decimal2)
    moreover have "\<bar>real ((200 * fst ?x + snd ?x) div (2 * snd ?x)) / 100 - 100 * real ?h / real (?h + ?m)\<bar>
        \<le> 1 / 200 + 1 / 10 ^ 13"
      using True by (rule hitRate_accuracy)
    ultimately show ?thesis by blast
  next
    case False
    have "decimal2 0 = ''0.00''"
      by (simp add: decimal2_def show_nat_small digit_char_def)
    then have "hitRate (CacheManager_getStats cm) = decimal2 0 @ ''%''"
      using False by (simp add: CacheManager_getStats_def Let_def)
    with False show ?thesis by (intro exI[of _ 0]) simp
  qed
qed

text \<open>The report of a fresh cache, and of one with 7 hits and 3 misses.\<close>

theorem getStats_hitRate_witness:
  "hitRate (CacheManager_getStats (CacheManager False)) = ''0.00%'' \<and>
   hitRate (CacheManager_getStats seven_of_ten) = ''70.00%'' \<and>
   (\<exists>n. hitRate (CacheManager_getStats seven_of_ten) = decimal2 n @ ''%'' \<and>
        \<bar>real n / 100 - 70\<bar> \<le> 1 / 200 + 1 / 10 ^ 13)"
proof -
  have z: "hits (stats (CacheManager False)) + misses (stats (CacheManager False)) = 0"
    by (simp add: CacheManager_def)
  have s: "hits (stats seven_of_ten) = 7 \<and> misses (stats seven_of_ten) = 3"
    by (simp add: seven_of_ten_def)
  have p: "0 < hits (stats seven_of_ten) + misses (stats seven_of_ten)"
    by (simp add: seven_of_ten_def)
  have 1: "hitRate (CacheManager_getStats (CacheManager False)) = ''0.00%''"
    using getStats_hitRate[of "CacheManager False"] z by blast
  have 2: "hitRate (CacheManager_getStats seven_of_ten) = ''70.00%''"
    using getStats_hitRate[of seven_of_ten] s by blast
  from getStats_hitRate[of seven_of_ten] p obtain n where
    n: "hitRate (CacheManager_getStats seven_of_ten) = decimal2 n @ ''%''"
       "\<bar>real n / 100 - 100 * real (hits (stats seven_of_ten)) /
           real (hits (stats seven_of_ten) + misses (stats seven_of_ten))\<bar> \<le> 1 / 200 + 1 / 10 ^ 13"
    by blast
  have "100 * real (hits (stats seven_of_ten)) /
           real (hits (stats seven_of_ten) + misses (stats seven_of_ten)) = 70"
    by (simp add: seven_of_ten_def)
  with n have 3: "\<exists>n. hitRate (CacheManager_getStats seven_of_ten) = decimal2 n @ ''%'' \<and>
        \<bar>real n / 100 - 70\<bar> \<le> 1 / 200 + 1 / 10 ^ 13"
    by auto
  from 1 2 3 show ?thesis by blast
qed


section \<open>No route sets an expiry in Redis\<close>

lemma sends_no_setex_iff:
  "sends_no_setex cm cm' \<longleftrightarrow>
     (\<exists>new. redis_commands cm' = redis_commands cm @ new \<and> list_all (\<lambda>cmd. \<not> is_setex cmd) new)"
proof
  assume a: "sends_no_setex cm cm'"
  then have "redis_commands cm' = redis_commands cm @ drop (length (redis_commands cm)) (redis_commands cm')"
    unfolding sends_no_setex_def by (metis append_take_drop_id)
  with a show "\<exists>new. redis_commands cm' = redis_commands cm @ new \<and> list_all (\<lambda>cmd. \<not> is_setex cmd) new"
    unfolding sends_no_setex_def by blast
next
  assume "\<exists>new. redis_commands cm' = redis_commands cm @ new \<and> list_all (\<lambda>cmd. \<not> is_setex cmd) new"
  then show "sends_no_setex cm cm'" unfolding sends_no_setex_def by auto
qed

lemma sends_no_setex_refl: "sends_no_setex cm cm"
  by (simp add: sends_no_setex_iff)

lemma sends_no_setex_trans:
  "sends_no_setex a b \<Longrightarrow> sends_no_setex b c \<Longrightarrow> sends_no_setex a c"
  unfolding sends_no_setex_iff by auto

lemma get_sends_no_setex:
  "sends_no_setex cm (snd (CacheManager_get parse now fault key cm))"
  unfolding sends_no_setex_iff
  by (auto simp: CacheManager_get_def redis_commands_def redis_send_def count_hit_def count_miss_def Let_def
           split: prod.splits option.splits sum.splits if_splits)

lemma set_sends_no_setex:
  "sends_no_setex cm (snd (CacheManager_set stringify now fault key v None cm))"
  unfolding sends_no_setex_iff
  by (auto simp: CacheManager_set_def redis_commands_def redis_send_def Let_def
           split: prod.splits option.splits sum.splits if_splits)

lemma get_sends_no_setex':
  "CacheManager_get parse now fault key cm = (a, cm') \<Longrightarrow> sends_no_setex cm cm'"
  using get_sends_no_setex[of cm parse now fault key] by simp

lemma set_sends_no_setex':
  "CacheManager_set stringify now fault key v None cm = (r, cm') \<Longrightarrow> sends_no_setex cm cm'"
  using set_sends_no_setex[of cm stringify now fault key v] by simp

lemma resolve_route_no_setex:
  "sends_no_setex (cache st) (cache (snd (resolve_route env param st)))"
  by (auto simp: resolve_route_def Let_def sends_no_setex_refl
           split: prod.splits sum.splits option.splits if_splits
           dest!: get_sends_no_setex' set_sends_no_setex' intro: sends_no_setex_trans)

lemma reverse_route_no_setex:
  "sends_no_setex (cache st) (cache (snd (reverse_route env param st)))"
  by (auto simp: reverse_route_def Let_def sends_no_setex_refl
           split: prod.splits sum.splits option.splits if_splits
           dest!: get_sends_no_setex' set_sends_no_setex' intro: sends_no_setex_trans)

lemma avatar_route_no_setex:
  "sends_no_setex (cache st) (cache (snd (avatar_route env param st)))"
  by (auto simp: avatar_route_def Let_def sends_no_setex_refl
           split: prod.splits sum.splits option.splits if_splits
           dest!: get_sends_no_setex' set_sends_no_setex' intro: sends_no_setex_trans)

lemma records_route_no_setex:
  "sends_no_setex (cache st) (cache (snd (records_route env param st)))"
  by (auto simp: records_route_def Let_def sends_no_setex_refl
           split: prod.splits sum.splits option.splits if_splits
           dest!: get_sends_no_setex' set_sends_no_setex' intro: sends_no_setex_trans)

lemma batch_operation_no_setex:
  "sends_no_setex (cache st) (cache (snd (batch_operation env op st)))"
  by (auto simp: batch_operation_def Let_def sends_no_setex_refl
           split: prod.splits sum.splits option.splits if_splits
           dest!: get_sends_no_setex' set_sends_no_setex' intro: sends_no_setex_trans)

lemma settle_all_no_setex:
  "sends_no_setex (cache st) (cache (snd (settle_all envs i ops st)))"
proof (induction ops arbitrary: i st)
  case Nil
  show ?case by (simp add: sends_no_setex_refl)
next
  case (Cons op ops)
  obtain r st1 where b: "batch_operation (envs i) op st = (r, st1)"
    by (cases "batch_operation (envs i) op st") auto
  have 1: "sends_no_setex (cache st) (cache st1)"
    using batch_operation_no_setex[of st "envs i" op] b by simp
  obtain rs st2 where s: "settle_all envs (i + 1) ops st1 = (rs, st2)"
    by (cases "settle_all envs (i + 1) ops st1") auto
  have 2: "sends_no_setex (cache st1) (cache st2)"
    using Cons.IH[of st1 "i + 1"] s by simp
  show ?case
    using sends_no_setex_trans[OF 1 2] b s by simp
qed

lemma settle_all_no_setex':
  "settle_all envs i ops st = (rs, st') \<Longrightarrow> sends_no_setex (cache st) (cache st')"
  using settle_all_no_setex[of st envs i ops] by simp

lemma batch_route_no_setex:
  "sends_no_setex (cache st) (cache (snd (batch_route envs body st)))"
  by (auto simp: batch_route_def sends_no_setex_refl
           split: prod.splits sum.splits option.splits if_splits json.splits
           dest!: settle_all_no_setex')

lemmas eval_defs =
  example_env_def example_app_def example_parse_def example_stringify_def
  sanitizeInput_def trim_def toLowerCase_def lower_char_def is_space_def isValidENSName_def
  CacheManager_def NodeCache_def CacheManager_get_def CacheManager_set_def NodeCache_get_def NodeCache_set_def
  redis_send_def redis_lookup_def count_hit_def count_miss_def
  executeWithFallback_def executeWithFallback_loop.simps on_provider_def ProviderManager_def RPC_PROVIDERS_def
  with_cached_def createError_def Error_def Let_def CACHE_TTL_def


lemma set_default_ttl_local:
  assumes "stdTTL (memoryCache cm) = CACHE_TTL"
  shows "fst (NodeCache_get t key (memoryCache (snd (CacheManager_set stringify now fault key v None cm)))) =
           (if t \<le> now + CACHE_TTL * 1000 then Some v else None)"
  using assms
  by (auto simp: CacheManager_set_def NodeCache_get_def NodeCache_set_def Let_def CACHE_TTL_def
        update_conv' split: option.splits sum.splits prod.splits)

lemma set_no_ttl_redis:
  assumes "redisClient cm = Some client" "stringify v = Inr s" "fault = None"
  shows "\<exists>client'. redisClient (snd (CacheManager_set stringify now fault key v None cm)) = Some client' \<and>
           commands client' = commands client @ [SET key s] \<and>
           keyspace client' key = Some (s, None) \<and>
           (\<forall>t. redis_lookup t (keyspace client') key = Some s)"
  using assms
  by (simp add: CacheManager_set_def Let_def redis_send_def redis_lookup_def)

text \<open>
  Claim C10. A \<open>set\<close> without a TTL stores the entry in the process-local tier with the
  configured default lifetime (it is found up to \<open>CACHE_TTL\<close> seconds later and not
  after), and, when Redis takes the write, sends a plain \<open>SET\<close>: the key has no expiry
  and a \<open>GET\<close> at any later time finds the value. None of the five routes that write to
  the cache ever sends a \<open>SETEX\<close>.
\<close>

theorem set_without_ttl_never_expires_in_redis:
  "(stdTTL (memoryCache cm) = CACHE_TTL \<longrightarrow>
      (\<forall>t. fst (NodeCache_get t key (memoryCache (snd (CacheManager_set stringify now fault key v None cm)))) =
             (if t \<le> now + CACHE_TTL * 1000 then Some v else None))) \<and>
   (redisClient cm = Some client \<and> stringify v = Inr s \<and> fault = None \<longrightarrow>
      (\<exists>client'. redisClient (snd (CacheManager_set stringify now fault key v None cm)) = Some client' \<and>
           commands client' = commands client @ [SET key s] \<and>
           keyspace client' key = Some (s, None) \<and>
           (\<forall>t. redis_lookup t (keyspace client') key = Some s))) \<and>
   sends_no_setex (cache st) (cache (snd (resolve_route env param st))) \<and>
   sends_no_setex (cache st) (cache (snd (reverse_route env param st))) \<and>
   sends_no_setex (cache st) (cache (snd (avatar_route env param st))) \<and>
   sends_no_setex (cache st) (cache (snd (records_route env param st))) \<and>
   sends_no_setex (cache st) (cache (snd (batch_route envs body st)))"
proof (intro conjI impI allI)
  fix t assume "stdTTL (memoryCache cm) = CACHE_TTL"
  then show "fst (NodeCache_get t key (memoryCache (snd (CacheManager_set stringify now fault key v None cm)))) =
             (if t \<le> now + CACHE_TTL * 1000 then Some v else None)"
    by (rule set_default_ttl_local)
next
  assume "redisClient cm = Some client \<and> stringify v = Inr s \<and> fault = None"
  then show "\<exists>client'. redisClient (snd (CacheManager_set stringify now fault key v None cm)) = Some client' \<and>
           commands client' = commands client @ [SET key s] \<and>
           keyspace client' key = Some (s, None) \<and>
           (\<forall>t. redis_lookup t (keyspace client') key = Some s)"
    using set_no_ttl_redis by blast
qed (rule resolve_route_no_setex reverse_route_no_setex avatar_route_no_setex records_route_no_setex
       batch_route_no_setex)+

text \<open>
  A write at time 1000: the local entry is there at 301000 and gone at 301001, the Redis
  entry is still there long after; and the commands of one resolve request.
\<close>

theorem set_without_ttl_never_expires_in_redis_witness:
  "fst (NodeCache_get 301000 ''k''
     (memoryCache (snd (CacheManager_set example_stringify 1000 None ''k'' (JArr [JNum 1]) None (CacheManager True)))))
     = Some (JArr [JNum 1]) \<and>
   fst (NodeCache_get 301001 ''k''
     (memoryCache (snd (CacheManager_set example_stringify 1000 None ''k'' (JArr [JNum 1]) None (CacheManager True)))))
     = None \<and>
   (\<exists>client'. redisClient (snd (CacheManager_set example_stringify 1000 None ''k'' (JArr [JNum 1]) None
                    (CacheManager True))) = Some client' \<and>
      commands client' = [SET ''k'' ''[1]''] \<and>
      redis_lookup 1000000000000 (keyspace client') ''k'' = Some ''[1]'') \<and>
   redis_commands (cache (snd (resolve_route example_env '' Vitalik.ETH '' example_app))) =
     [GET ''resolve:vitalik.eth'', SET ''resolve:vitalik.eth'' ''{}'']"
proof -
  note inst = set_without_ttl_never_expires_in_redis[where cm="CacheManager True" and key="''k''"
      and stringify=example_stringify and now=1000 and fault=None and v="JArr [JNum 1]" and s="''[1]''"
      and client="\<lparr>keyspace = Map.empty, commands = []\<rparr>" and st=example_app and env=example_env
      and param="'' Vitalik.ETH ''"]
  have h1: "stdTTL (memoryCache (CacheManager True)) = CACHE_TTL"
    by (simp add: CacheManager_def NodeCache_def)
  have h2: "redisClient (CacheManager True) = Some \<lparr>keyspace = Map.empty, commands = []\<rparr> \<and>
      example_stringify (JArr [JNum 1]) = Inr ''[1]'' \<and> (None :: js_error option) = None"
    by (simp add: CacheManager_def example_stringify_def)
  from inst h1 have a: "\<forall>t. fst (NodeCache_get t ''k''
     (memoryCache (snd (CacheManager_set example_stringify 1000 None ''k'' (JArr [JNum 1]) None (CacheManager True)))))
       = (if t \<le> 1000 + CACHE_TTL * 1000 then Some (JArr [JNum 1]) else None)"
    by blast
  from inst h2 obtain client' where b:
    "redisClient (snd (CacheManager_set example_stringify 1000 None ''k'' (JArr [JNum 1]) None
                    (CacheManager True))) = Some client'"
    "commands client' = commands \<lparr>keyspace = Map.empty, commands = []\<rparr> @ [SET ''k'' ''[1]'']"
    "\<forall>t. redis_lookup t (keyspace client') ''k'' = Some ''[1]''"
    by blast
  from inst have c: "sends_no_setex (cache example_app)
      (cache (snd (resolve_route example_env '' Vitalik.ETH '' example_app)))"
    by blast
  have d: "redis_commands (cache (snd (resolve_route example_env '' Vitalik.ETH '' example_app))) =
     [GET ''resolve:vitalik.eth'', SET ''resolve:vitalik.eth'' ''{}'']"
    by (simp add: resolve_route_def redis_commands_def eval_defs)
  have a1: "fst (NodeCache_get 301000 ''k''
     (memoryCache (snd (CacheManager_set example_stringify 1000 None ''k'' (JArr [JNum 1]) None (CacheManager True)))))
     = Some (JArr [JNum 1])"
    using a[rule_format, of 301000] by (simp add: CACHE_TTL_def)
  have a2: "fst (NodeCache_get 301001 ''k''
     (memoryCache (snd (CacheManager_set example_stringify 1000 None ''k'' (JArr [JNum 1]) None (CacheManager True)))))
     = None"
    using a[rule_format, of 301001] by (simp add: CACHE_TTL_def)
  from b have b': "\<exists>client'. redisClient (snd (CacheManager_set example_stringify 1000 None ''k'' (JArr [JNum 1]) None
                    (CacheManager True))) = Some client' \<and>
      commands client' = [SET ''k'' ''[1]''] \<and>
      redis_lookup 1000000000000 (keyspace client') ''k'' = Some ''[1]''"
    by auto
  from a1 a2 b' d show ?thesis by blast
qed

section \<open>The not-found policy of resolve and reverse\<close>

lemma CacheManager_set_fulfilled:
  "fst (CacheManager_set stringify now fault key v ttl cm) = Inr ()"
  by (simp add: CacheManager_set_def Let_def)

lemma CacheManager_set_not_rejected [simp]:
  "CacheManager_set stringify now fault key v ttl cm \<noteq> (Inl e, cm')"
  using CacheManager_set_fulfilled[of stringify now fault key v ttl cm] by auto

lemma CacheManager_set_local:
  "fst (NodeCache_get now key (memoryCache (snd (CacheManager_set stringify now fault key v ttl cm)))) = Some v"
  by (auto simp: CacheManager_set_def Let_def NodeCache_get_after_set
           split: option.splits sum.splits prod.splits)

text \<open>
  Claim C6. On a valid name that the cache does not answer and for which the provider
  lookup yields \<open>null\<close>, the resolve route fails with the error ``ENS name not found'',
  which the error handler sends with status 404, and leaves the cache as the read left
  it: nothing is written. On a valid address that the cache does not answer and for
  which the lookup yields \<open>null\<close>, the reverse route answers with the address,
  \<open>name: null\<close>, the timestamp and \<open>cached: false\<close>, after writing the result (without
  the \<open>cached\<close> flag) to the cache under \<open>reverse:<address>\<close>.
\<close>

theorem null_lookup_policy:
  "(isValidENSName (sanitizeInput param) \<and>
    \<not> truthy (fst (CacheManager_get (JSON_parse env) (clock env) (redis_get_fault env)
                     (''resolve:'' @ sanitizeInput param) (cache st))) \<and>
    fst (executeWithFallback
           (\<lambda>attempt. on_provider ''resolveName'' (\<lambda>p. resolveName env attempt p (sanitizeInput param)))
           None (providerManager st)) = Inr None
    \<longrightarrow>
    fst (resolve_route env param st) = Inl (createError ''ENS name not found'' (Some 404)) \<and>
    fst (errorHandler (createError ''ENS name not found'' (Some 404)) requestId ts) = 404 \<and>
    cache (snd (resolve_route env param st)) =
      snd (CacheManager_get (JSON_parse env) (clock env) (redis_get_fault env)
             (''resolve:'' @ sanitizeInput param) (cache st))) \<and>
   (isAddress env (sanitizeInput param) \<and>
    \<not> truthy (fst (CacheManager_get (JSON_parse env) (clock env) (redis_get_fault env)
                     (''reverse:'' @ sanitizeInput param) (cache st))) \<and>
    fst (executeWithFallback
           (\<lambda>attempt. on_provider ''lookupAddress'' (\<lambda>p. lookupAddress env attempt p (sanitizeInput param)))
           None (providerManager st)) = Inr None
    \<longrightarrow>
    fst (reverse_route env param st) =
      Inr (JObj [(''address'', JStr (sanitizeInput param)), (''name'', JNull),
                 (''timestamp'', JStr (timestamp env)), (''cached'', JBool False)]) \<and>
    cache (snd (reverse_route env param st)) =
      snd (CacheManager_set (JSON_stringify env) (clock env) (redis_set_fault env)
             (''reverse:'' @ sanitizeInput param)
             (JObj [(''address'', JStr (sanitizeInput param)), (''name'', JNull),
                    (''timestamp'', JStr (timestamp env))])
             None
             (snd (CacheManager_get (JSON_parse env) (clock env) (redis_get_fault env)
                     (''reverse:'' @ sanitizeInput param) (cache st)))) \<and>
    fst (NodeCache_get (clock env) (''reverse:'' @ sanitizeInput param)
           (memoryCache (cache (snd (reverse_route env param st))))) =
      Some (JObj [(''address'', JStr (sanitizeInput param)), (''name'', JNull),
                  (''timestamp'', JStr (timestamp env))]))"
proof (intro conjI impI)
  assume a: "isValidENSName (sanitizeInput param) \<and>
    \<not> truthy (fst (CacheManager_get (JSON_parse env) (clock env) (redis_get_fault env)
                     (''resolve:'' @ sanitizeInput param) (cache st))) \<and>
    fst (executeWithFallback
           (\<lambda>attempt. on_provider ''resolveName'' (\<lambda>p. resolveName env attempt p (sanitizeInput param)))
           None (providerManager st)) = Inr None"
  show "fst (resolve_route env param st) = Inl (createError ''ENS name not found'' (Some 404))"
    using a by (auto simp: resolve_route_def Let_def split: prod.splits sum.splits option.splits)
  show "cache (snd (resolve_route env param st)) =
      snd (CacheManager_get (JSON_parse env) (clock env) (redis_get_fault env)
             (''resolve:'' @ sanitizeInput param) (cache st))"
    using a by (auto simp: resolve_route_def Let_def split: prod.splits sum.splits option.splits)
  show "fst (errorHandler (createError ''ENS name not found'' (Some 404)) requestId ts) = 404"
    by (simp add: errorHandler_def createError_def)
next
  let ?key = "''reverse:'' @ sanitizeInput param"
  let ?result = "JObj [(''address'', JStr (sanitizeInput param)), (''name'', JNull),
                    (''timestamp'', JStr (timestamp env))]"
  let ?c1 = "snd (CacheManager_get (JSON_parse env) (clock env) (redis_get_fault env) ?key (cache st))"
  assume a: "isAddress env (sanitizeInput param) \<and>
    \<not> truthy (fst (CacheManager_get (JSON_parse env) (clock env) (redis_get_fault env) ?key (cache st))) \<and>
    fst (executeWithFallback
           (\<lambda>attempt. on_provider ''lookupAddress'' (\<lambda>p. lookupAddress env attempt p (sanitizeInput param)))
           None (providerManager st)) = Inr None"
  show "fst (reverse_route env param st) =
      Inr (JObj [(''address'', JStr (sanitizeInput param)), (''name'', JNull),
                 (''timestamp'', JStr (timestamp env)), (''cached'', JBool False)])"
    using a
    by (auto simp: reverse_route_def Let_def with_cached_def split: prod.splits sum.splits option.splits)
  show c: "cache (snd (reverse_route env param st)) =
      snd (CacheManager_set (JSON_stringify env) (clock env) (redis_set_fault env) ?key ?result None ?c1)"
    using a
    by (auto simp: reverse_route_def Let_def split: prod.splits sum.splits option.splits)
  show "fst (NodeCache_get (clock env) ?key (memoryCache (cache (snd (reverse_route env param st))))) =
      Some ?result"
    unfolding c by (rule CacheManager_set_local)
qed

text \<open>Both routes on the example state, for a name and an address the providers do not know.\<close>

theorem null_lookup_policy_witness:
  "fst (resolve_route example_env ''ghost.eth'' example_app) = Inl (createError ''ENS name not found'' (Some 404)) \<and>
   fst (errorHandler (createError ''ENS name not found'' (Some 404)) ''r1'' ''t1'') = 404 \<and>
   NodeCache_keys (memoryCache (cache (snd (resolve_route example_env ''ghost.eth'' example_app)))) = [] \<and>
   sets (stats (cache (snd (resolve_route example_env ''ghost.eth'' example_app)))) = 0 \<and>
   fst (reverse_route example_env ''0x0000000000000000000000000000000000000001'' example_app) =
     Inr (JObj [(''address'', JStr ''0x0000000000000000000000000000000000000001''), (''name'', JNull),
                (''timestamp'', JStr ''2024-01-01T00:00:00.000Z''), (''cached'', JBool False)]) \<and>
   fst (NodeCache_get 1000 ''reverse:0x0000000000000000000000000000000000000001''
          (memoryCache (cache (snd (reverse_route example_env ''0x0000000000000000000000000000000000000001''
             example_app))))) =
     Some (JObj [(''address'', JStr ''0x0000000000000000000000000000000000000001''), (''name'', JNull),
                 (''timestamp'', JStr ''2024-01-01T00:00:00.000Z'')])"
proof -
  have s1: "sanitizeInput ''ghost.eth'' = ''ghost.eth''"
    by (simp add: eval_defs)
  have s2: "sanitizeInput ''0x0000000000000000000000000000000000000001'' =
      ''0x0000000000000000000000000000000000000001''"
    by (simp add: eval_defs)
  have h1: "isValidENSName (sanitizeInput ''ghost.eth'') \<and>
    \<not> truthy (fst (CacheManager_get (JSON_parse example_env) (clock example_env) (redis_get_fault example_env)
                     (''resolve:'' @ sanitizeInput ''ghost.eth'') (cache example_app))) \<and>
    fst (executeWithFallback
           (\<lambda>attempt. on_provider ''resolveName''
               (\<lambda>p. resolveName example_env attempt p (sanitizeInput ''ghost.eth'')))
           None (providerManager example_app)) = Inr None"
    unfolding s1 by (simp add: eval_defs)
  have h2: "isAddress example_env (sanitizeInput ''0x0000000000000000000000000000000000000001'') \<and>
    \<not> truthy (fst (CacheManager_get (JSON_parse example_env) (clock example_env) (redis_get_fault example_env)
                     (''reverse:'' @ sanitizeInput ''0x0000000000000000000000000000000000000001'')
                     (cache example_app))) \<and>
    fst (executeWithFallback
           (\<lambda>attempt. on_provider ''lookupAddress''
               (\<lambda>p. lookupAddress example_env attempt p
                      (sanitizeInput ''0x0000000000000000000000000000000000000001'')))
           None (providerManager example_app)) = Inr None"
    unfolding s2 by (simp add: eval_defs)
  note r1 = null_lookup_policy[where env=example_env and st=example_app and param="''ghost.eth''"
      and requestId="''r1''" and ts="''t1''", THEN conjunct1, rule_format, OF h1]
  note r2 = null_lookup_policy[where env=example_env and st=example_app
      and param="''0x0000000000000000000000000000000000000001''", THEN conjunct2, rule_format, OF h2]
  have k: "NodeCache_keys (memoryCache (snd (CacheManager_get (JSON_parse example_env) (clock example_env)
             (redis_get_fault example_env) (''resolve:'' @ sanitizeInput ''ghost.eth'') (cache example_app)))) = [] \<and>
           sets (stats (snd (CacheManager_get (JSON_parse example_env) (clock example_env)
             (redis_get_fault example_env) (''resolve:'' @ sanitizeInput ''ghost.eth'') (cache example_app)))) = 0"
    unfolding s1 by (simp add: eval_defs NodeCache_keys_def)
  have ts: "timestamp example_env = ''2024-01-01T00:00:00.000Z''" "clock example_env = 1000"
    by (simp_all add: example_env_def)
  from r1 have c: "cache (snd (resolve_route example_env ''ghost.eth'' example_app)) =
      snd (CacheManager_get (JSON_parse example_env) (clock example_env)
             (redis_get_fault example_env) (''resolve:'' @ sanitizeInput ''ghost.eth'') (cache example_app))"
    by blast
  have k': "NodeCache_keys (memoryCache (cache (snd (resolve_route example_env ''ghost.eth'' example_app)))) = [] \<and>
      sets (stats (cache (snd (resolve_route example_env ''ghost.eth'' example_app)))) = 0"
    unfolding c by (rule k)
  from r1 have a1: "fst (resolve_route example_env ''ghost.eth'' example_app) =
        Inl (createError ''ENS name not found'' (Some 404)) \<and>
      fst (errorHandler (createError ''ENS name not found'' (Some 404)) ''r1'' ''t1'') = 404"
    by blast
  from r2[unfolded s2 ts] have a2: "fst (reverse_route example_env ''0x0000000000000000000000000000000000000001'' example_app) =
     Inr (JObj [(''address'', JStr ''0x0000000000000000000000000000000000000001''), (''name'', JNull),
                (''timestamp'', JStr ''2024-01-01T00:00:00.000Z''), (''cached'', JBool False)]) \<and>
   fst (NodeCache_get 1000 ''reverse:0x0000000000000000000000000000000000000001''
          (memoryCache (cache (snd (reverse_route example_env ''0x0000000000000000000000000000000000000001''
             example_app))))) =
     Some (JObj [(''address'', JStr ''0x0000000000000000000000000000000000000001''), (''name'', JNull),
                 (''timestamp'', JStr ''2024-01-01T00:00:00.000Z'')])"
    by (simp add: CacheManager_set_local)
  from a1 k' a2 show ?thesis by blast
qed

section \<open>Batch\<close>

lemmas batch_eval_defs =
  batch_operation_def batch_route_def ghost_op_def vitalik_op_def reverse_op_def example_envs_def
  example_body_def show_nat.simps digit_char_def NodeCache_keys_def

text \<open>
  Claim C7 does not hold of the code. For a name the providers answer \<open>null\<close> for, the
  single resolve route fails with 404 and caches nothing, while the resolve operation
  of a batch is fulfilled with \<open>{name, address: null}\<close> and stores that object under the
  same key \<open>resolve:<name>\<close>; a single resolve of the name right after the batch is then
  answered from the cache with \<open>address: null\<close> instead of 404. For a name that
  resolves, the object the batch caches and returns has no timestamp, the one of the
  single route has.
\<close>

theorem batch_resolve_diverges_from_single:
  "fst (resolve_route example_env ''ghost.eth'' example_app) =
     Inl (createError ''ENS name not found'' (Some 404)) \<and>
   NodeCache_keys (memoryCache (cache (snd (resolve_route example_env ''ghost.eth'' example_app)))) = [] \<and>
   fst (batch_operation example_env ghost_op example_app) =
     Inr (JObj [(''name'', JStr ''ghost.eth''), (''address'', JNull)]) \<and>
   NodeCache_keys (memoryCache (cache (snd (batch_operation example_env ghost_op example_app)))) =
     [''resolve:ghost.eth''] \<and>
   fst (resolve_route example_env ''ghost.eth'' (snd (batch_operation example_env ghost_op example_app))) =
     Inr (JObj [(''name'', JStr ''ghost.eth''), (''address'', JNull), (''cached'', JBool True)]) \<and>
   fst (resolve_route example_env ''vitalik.eth'' example_app) =
     Inr (JObj [(''name'', JStr ''vitalik.eth''), (''address'', JStr ''0xd8da6bf26964af9d7eed9e03e53415d37aa96045''),
                (''timestamp'', JStr ''2024-01-01T00:00:00.000Z''), (''cached'', JBool False)]) \<and>
   fst (batch_operation example_env vitalik_op example_app) =
     Inr (JObj [(''name'', JStr ''vitalik.eth''), (''address'', JStr ''0xd8da6bf26964af9d7eed9e03e53415d37aa96045'')])"
proof (intro conjI)
  show "fst (resolve_route example_env ''ghost.eth'' example_app) =
     Inl (createError ''ENS name not found'' (Some 404))"
    by (simp add: resolve_route_def eval_defs)
  show "NodeCache_keys (memoryCache (cache (snd (resolve_route example_env ''ghost.eth'' example_app)))) = []"
    by (simp add: resolve_route_def eval_defs batch_eval_defs)
  show "fst (batch_operation example_env ghost_op example_app) =
     Inr (JObj [(''name'', JStr ''ghost.eth''), (''address'', JNull)])"
    by (simp add: eval_defs batch_eval_defs)
  show "NodeCache_keys (memoryCache (cache (snd (batch_operation example_env ghost_op example_app)))) =
     [''resolve:ghost.eth'']"
    by (simp add: eval_defs batch_eval_defs)
  show "fst (resolve_route example_env ''ghost.eth'' (snd (batch_operation example_env ghost_op example_app))) =
     Inr (JObj [(''name'', JStr ''ghost.eth''), (''address'', JNull), (''cached'', JBool True)])"
    by (simp add: resolve_route_def eval_defs batch_eval_defs)
  show "fst (resolve_route example_env ''vitalik.eth'' example_app) =
     Inr (JObj [(''name'', JStr ''vitalik.eth''), (''address'', JStr ''0xd8da6bf26964af9d7eed9e03e53415d37aa96045''),
                (''timestamp'', JStr ''2024-01-01T00:00:00.000Z''), (''cached'', JBool False)])"
    by (simp add: resolve_route_def eval_defs)
  show "fst (batch_operation example_env vitalik_op example_app) =
     Inr (JObj [(''name'', JStr ''vitalik.eth''), (''address'', JStr ''0xd8da6bf26964af9d7eed9e03e53415d37aa96045'')])"
    by (simp add: eval_defs batch_eval_defs)
qed





section \<open>The heartbeat of the WebSocket server\<close>

lemma broadcast_at:
  "broadcast frame cs socks c =
     (case socks c of
        None \<Rightarrow> None
      | Some cl \<Rightarrow>
          if readyState cl = OPEN then Some (cl\<lparr>outbox := outbox cl @ replicate (count_list cs c) frame\<rparr>)
          else Some cl)"
proof (induction cs arbitrary: socks)
  case Nil
  show ?case by (simp split: option.splits)
next
  case (Cons a cs)
  show ?case
    by (simp add: Cons.IH replicate_app_Cons_same split: option.splits)
qed

lemma broadcast_closed:
  "socks c = Some cl \<Longrightarrow> readyState cl \<noteq> OPEN \<Longrightarrow> broadcast frame cs socks c = Some cl"
  by (simp add: broadcast_at)

text \<open>A socket that is not open is never opened and receives nothing.\<close>

lemma ws_step_not_open:
  assumes "sockets s c = Some cl" "readyState cl \<noteq> OPEN"
  shows "\<exists>cl'. sockets (ws_step s ev) c = Some cl' \<and> readyState cl' \<noteq> OPEN \<and> outbox cl' = outbox cl"
proof (cases ev)
  case (NewBlock n)
  then show ?thesis using assms broadcast_closed[of "sockets s" c cl] by simp
qed (use assms in \<open>auto simp: ws_send_def ws_terminate_def split: option.splits sum.splits\<close>)

lemma ws_run_not_open:
  assumes "sockets s c = Some cl" "readyState cl \<noteq> OPEN"
  shows "\<exists>cl'. sockets (ws_run s evs) c = Some cl' \<and> readyState cl' \<noteq> OPEN \<and> outbox cl' = outbox cl"
  using assms
proof (induction evs arbitrary: s cl)
  case Nil
  then show ?case by (simp add: ws_run_def)
next
  case (Cons ev evs)
  from ws_step_not_open[OF Cons.prems, of ev] obtain cl1 where
    1: "sockets (ws_step s ev) c = Some cl1" "readyState cl1 \<noteq> OPEN" "outbox cl1 = outbox cl"
    by blast
  from Cons.IH[OF 1(1,2)] 1(3) show ?case by (simp add: ws_run_def)
qed

lemma ws_run_append: "ws_run s (xs @ ys) = ws_run (ws_run s xs) ys"
  by (simp add: ws_run_def)

lemma ws_run_Cons: "ws_run s (x # xs) = ws_run (ws_step s x) xs"
  by (simp add: ws_run_def)

lemma ws_run_snoc: "ws_run s (xs @ [x]) = ws_step (ws_run s xs) x"
  by (simp add: ws_run_def)

lemma ws_inv_step: "ws_inv s \<Longrightarrow> ws_inv (ws_step s ev)"
proof (cases ev)
  case (NewBlock n)
  assume "ws_inv s"
  then show ?thesis
    unfolding NewBlock ws_inv_def
    by (auto simp: broadcast_at split: option.splits if_splits)
qed (auto simp: ws_inv_def ws_send_def ws_terminate_def split: option.splits sum.splits if_splits)

lemma ws_inv_run: "ws_inv s \<Longrightarrow> ws_inv (ws_run s evs)"
  by (induction evs arbitrary: s) (auto simp: ws_run_Cons ws_inv_step ws_run_def)

lemma ws_inv_initial: "ws_inv ws_initial"
  by (simp add: ws_inv_def ws_initial_def)

lemma ws_step_keeps_listening:
  assumes "sockets s c = Some cl"
  shows "\<exists>cl'. sockets (ws_step s ev) c = Some cl' \<and> listening cl' = listening cl"
proof (cases ev)
  case (NewBlock n)
  then show ?thesis using assms by (simp add: broadcast_at)
qed (use assms in \<open>auto simp: ws_send_def ws_terminate_def split: option.splits sum.splits\<close>)

lemma ws_run_keeps_listening:
  assumes "sockets s c = Some cl"
  shows "\<exists>cl'. sockets (ws_run s evs) c = Some cl' \<and> listening cl' = listening cl"
  using assms
proof (induction evs arbitrary: s cl)
  case Nil
  then show ?case by (simp add: ws_run_def)
next
  case (Cons ev evs)
  from ws_step_keeps_listening[OF Cons.prems, of ev] obtain cl1 where
    1: "sockets (ws_step s ev) c = Some cl1" "listening cl1 = listening cl" by blast
  from Cons.IH[OF 1(1)] 1(2) show ?case by (simp add: ws_run_Cons)
qed

lemma ws_step_stays_out:
  assumes "sockets s c = Some cl" "c \<notin> set (connectedClients s)"
  shows "c \<notin> set (connectedClients (ws_step s ev))"
  using assms by (cases ev) (auto split: option.splits sum.splits)

lemma ws_run_stays_out:
  assumes "sockets s c = Some cl" "c \<notin> set (connectedClients s)"
  shows "c \<notin> set (connectedClients (ws_run s evs))"
  using assms
proof (induction evs arbitrary: s cl)
  case Nil
  then show ?case by (simp add: ws_run_def)
next
  case (Cons ev evs)
  from ws_step_keeps_listening[OF Cons.prems(1), of ev] obtain cl1 where
    1: "sockets (ws_step s ev) c = Some cl1" by blast
  from Cons.IH[OF 1 ws_step_stays_out[OF Cons.prems]] show ?case by (simp add: ws_run_Cons)
qed

lemma ws_close_leaves:
  assumes "sockets s c = Some cl" "listening cl"
  shows "c \<notin> set (connectedClients (ws_step s (Close c)))"
  using assms by simp

lemma ws_step_unanswered:
  assumes "sockets s c = Some cl" "\<not> isAlive cl" "ev \<noteq> Pong c"
  shows "\<exists>cl'. sockets (ws_step s ev) c = Some cl' \<and> \<not> isAlive cl'"
proof (cases ev)
  case (NewBlock n)
  then show ?thesis using assms by (simp add: broadcast_at)
qed (use assms in \<open>auto simp: ws_send_def ws_terminate_def split: option.splits sum.splits\<close>)

lemma ws_run_unanswered:
  assumes "sockets s c = Some cl" "\<not> isAlive cl" "Pong c \<notin> set evs"
  shows "\<exists>cl'. sockets (ws_run s evs) c = Some cl' \<and> \<not> isAlive cl'"
  using assms
proof (induction evs arbitrary: s cl)
  case Nil
  then show ?case by (simp add: ws_run_def)
next
  case (Cons ev evs)
  from Cons.prems(3) have ne: "ev \<noteq> Pong c" and rest: "Pong c \<notin> set evs" by auto
  from ws_step_unanswered[OF Cons.prems(1,2) ne] obtain cl1 where
    1: "sockets (ws_step s ev) c = Some cl1" "\<not> isAlive cl1" by blast
  from Cons.IH[OF 1 rest] show ?case by (simp add: ws_run_Cons)
qed

text \<open>One heartbeat tick: afterwards the socket is not open, or a probe is unanswered.\<close>

lemma ws_tick:
  assumes "ws_inv s" "sockets s c = Some cl"
  shows "\<exists>cl'. sockets (ws_step s (HeartbeatTick c)) c = Some cl' \<and>
           (readyState cl' \<noteq> OPEN \<or> \<not> isAlive cl') \<and>
           (\<not> isAlive cl \<longrightarrow> readyState cl' \<noteq> OPEN)"
  using assms
  by (auto simp: ws_inv_def ws_send_def ws_terminate_def)

lemma terminated_is_final:
  assumes inv: "ws_inv s" and sock: "sockets s c = Some cl" and hb: "heartbeat cl" and dead: "\<not> isAlive cl"
  shows "\<not> is_open (ws_run (ws_step s (HeartbeatTick c)) evs) c \<and>
         frames_to (ws_run (ws_step s (HeartbeatTick c)) evs) c = frames_to s c \<and>
         (Close c \<in> set evs \<longrightarrow> c \<notin> set (connectedClients (ws_run (ws_step s (HeartbeatTick c)) evs)))"
proof -
  let ?s1 = "ws_step s (HeartbeatTick c)"
  let ?cl1 = "ws_terminate (cl\<lparr>heartbeat := False\<rparr>)"
  have s1: "sockets ?s1 c = Some ?cl1" using sock hb dead by simp
  have closed: "readyState ?cl1 \<noteq> OPEN" by (simp add: ws_terminate_def)
  have out: "outbox ?cl1 = outbox cl" by (simp add: ws_terminate_def)
  have lis: "listening ?cl1" using inv sock hb by (auto simp: ws_inv_def ws_terminate_def)
  from ws_run_not_open[OF s1 closed, of evs] obtain cl' where
    fin: "sockets (ws_run ?s1 evs) c = Some cl'" "readyState cl' \<noteq> OPEN" "outbox cl' = outbox ?cl1"
    by blast
  have a: "\<not> is_open (ws_run ?s1 evs) c" using fin by (simp add: is_open_def)
  have b: "frames_to (ws_run ?s1 evs) c = frames_to s c"
    using fin out sock by (simp add: frames_to_def)
  have c: "c \<notin> set (connectedClients (ws_run ?s1 evs))" if "Close c \<in> set evs"
  proof -
    from that obtain e1 e2 where split: "evs = e1 @ Close c # e2" by (auto dest: split_list)
    from ws_run_keeps_listening[OF s1, of e1] lis obtain cl2 where
      2: "sockets (ws_run ?s1 e1) c = Some cl2" "listening cl2" by auto
    have gone: "c \<notin> set (connectedClients (ws_step (ws_run ?s1 e1) (Close c)))"
      using 2 by (rule ws_close_leaves)
    from ws_step_keeps_listening[OF 2(1), of "Close c"] obtain cl3 where
      3: "sockets (ws_step (ws_run ?s1 e1) (Close c)) c = Some cl3" by blast
    have "ws_run ?s1 evs = ws_run (ws_step (ws_run ?s1 e1) (Close c)) e2"
      unfolding split by (simp add: ws_run_append ws_run_Cons)
    then show ?thesis using ws_run_stays_out[OF 3 gone, of e2] by simp
  qed
  from a b c show ?thesis by blast
qed

lemma two_ticks_without_pong:
  assumes inv: "ws_inv s" and sock: "sockets s c \<noteq> None" and quiet: "Pong c \<notin> set between"
  shows "\<not> is_open (ws_run s ([HeartbeatTick c] @ between @ [HeartbeatTick c])) c \<and>
         frames_to (ws_run s ([HeartbeatTick c] @ between @ [HeartbeatTick c] @ later)) c =
           frames_to (ws_run s ([HeartbeatTick c] @ between @ [HeartbeatTick c])) c"
proof -
  from sock obtain cl where cl: "sockets s c = Some cl" by auto
  let ?s1 = "ws_step s (HeartbeatTick c)"
  let ?s2 = "ws_run ?s1 between"
  let ?s3 = "ws_step ?s2 (HeartbeatTick c)"
  have run3: "ws_run s ([HeartbeatTick c] @ between @ [HeartbeatTick c]) = ?s3"
    by (simp add: ws_run_Cons ws_run_snoc)
  have run4: "ws_run s ([HeartbeatTick c] @ between @ [HeartbeatTick c] @ later) = ws_run ?s3 later"
    by (simp add: ws_run_Cons ws_run_append)
  have inv2: "ws_inv ?s2" using inv by (intro ws_inv_run ws_inv_step)
  from ws_tick[OF inv cl] obtain cl1 where
    1: "sockets ?s1 c = Some cl1" "readyState cl1 \<noteq> OPEN \<or> \<not> isAlive cl1" by blast
  have "\<exists>cl3. sockets ?s3 c = Some cl3 \<and> readyState cl3 \<noteq> OPEN"
  proof (cases "readyState cl1 = OPEN")
    case False
    from ws_run_not_open[OF 1(1) False, of between] obtain cl2 where
      2: "sockets ?s2 c = Some cl2" "readyState cl2 \<noteq> OPEN" by blast
    from ws_step_not_open[OF 2, of "HeartbeatTick c"] show ?thesis by blast
  next
    case True
    with 1 have "\<not> isAlive cl1" by simp
    from ws_run_unanswered[OF 1(1) this quiet] obtain cl2 where
      2: "sockets ?s2 c = Some cl2" "\<not> isAlive cl2" by blast
    from ws_tick[OF inv2 2(1)] 2(2) show ?thesis by blast
  qed
  then obtain cl3 where 3: "sockets ?s3 c = Some cl3" "readyState cl3 \<noteq> OPEN" by blast
  from ws_run_not_open[OF 3, of later] obtain cl4 where
    4: "sockets (ws_run ?s3 later) c = Some cl4" "outbox cl4 = outbox cl3" by blast
  show ?thesis
    unfolding run3 run4 using 3 4 by (simp add: is_open_def frames_to_def)
qed

text \<open>
  Claim C9. In every reachable state of the WebSocket server: when the heartbeat tick
  of a socket finds the previous probe unanswered, the socket is terminated; from then
  on, whatever happens, it is never open again and no frame is sent to it (no block
  broadcast in particular), and once its \<open>close\<close> event has been delivered it is out of
  \<open>connectedClients\<close> for good. And a socket that has connected and sends no pong between
  two of its heartbeat ticks is not open after the second tick and receives no frame
  after it.
\<close>

theorem unanswered_probe_ends_broadcasts:
  "(sockets (ws_run ws_initial pre) c = Some cl \<and> heartbeat cl \<and> \<not> isAlive cl \<longrightarrow>
      (\<forall>evs.
         \<not> is_open (ws_run (ws_step (ws_run ws_initial pre) (HeartbeatTick c)) evs) c \<and>
         frames_to (ws_run (ws_step (ws_run ws_initial pre) (HeartbeatTick c)) evs) c =
           frames_to (ws_run ws_initial pre) c \<and>
         (Close c \<in> set evs \<longrightarrow>
            c \<notin> set (connectedClients (ws_run (ws_step (ws_run ws_initial pre) (HeartbeatTick c)) evs))))) \<and>
   (sockets (ws_run ws_initial pre) c \<noteq> None \<and> Pong c \<notin> set between \<longrightarrow>
      \<not> is_open (ws_run ws_initial (pre @ [HeartbeatTick c] @ between @ [HeartbeatTick c])) c \<and>
      (\<forall>later.
         frames_to (ws_run ws_initial (pre @ [HeartbeatTick c] @ between @ [HeartbeatTick c] @ later)) c =
           frames_to (ws_run ws_initial (pre @ [HeartbeatTick c] @ between @ [HeartbeatTick c])) c))"
proof -
  have inv: "ws_inv (ws_run ws_initial pre)"
    by (intro ws_inv_run ws_inv_initial)
  have r: "ws_run ws_initial (pre @ xs) = ws_run (ws_run ws_initial pre) xs" for xs
    by (rule ws_run_append)
  show ?thesis
    unfolding r
    using terminated_is_final[OF inv] two_ticks_without_pong[OF inv]
    by blast
qed

text \<open>
  One subscriber that never answers: it gets the welcome, the block before the first
  probe, the probe and the block before the second tick, and nothing afterwards.
\<close>

theorem unanswered_probe_ends_broadcasts_witness:
  "frames_to (ws_run ws_initial
      [Connection 1, NewBlock 100, HeartbeatTick 1, NewBlock 101, HeartbeatTick 1,
       NewBlock 102, Close 1, NewBlock 103]) 1 = [Welcome, Block 100, Ping, Block 101] \<and>
   \<not> is_open (ws_run ws_initial
      [Connection 1, NewBlock 100, HeartbeatTick 1, NewBlock 101, HeartbeatTick 1,
       NewBlock 102, Close 1, NewBlock 103]) 1 \<and>
   1 \<notin> set (connectedClients (ws_run ws_initial
      [Connection 1, NewBlock 100, HeartbeatTick 1, NewBlock 101, HeartbeatTick 1,
       NewBlock 102, Close 1, NewBlock 103])) \<and>
   frames_to (ws_run ws_initial
      [Connection 1, NewBlock 100, HeartbeatTick 1, NewBlock 101, HeartbeatTick 1,
       NewBlock 102, Close 1, NewBlock 103]) 1 =
   frames_to (ws_run ws_initial
      [Connection 1, NewBlock 100, HeartbeatTick 1, NewBlock 101, HeartbeatTick 1]) 1"
proof -
  let ?pre = "[Connection 1, NewBlock 100, HeartbeatTick 1, NewBlock 101]"
  let ?cl = "\<lparr>readyState = OPEN, listening = True, isAlive = False, heartbeat = True,
             outbox = [Welcome, Block 100, Ping, Block 101]\<rparr>"
  let ?evs = "[NewBlock 102, Close 1, NewBlock 103]"
  have pre: "sockets (ws_run ws_initial ?pre) 1 = Some ?cl \<and> heartbeat ?cl \<and> \<not> isAlive ?cl"
    by (simp add: ws_run_def ws_initial_def WS_MAX_CLIENTS_def ws_send_def)
  have fr: "frames_to (ws_run ws_initial ?pre) 1 = [Welcome, Block 100, Ping, Block 101]"
    using pre by (simp add: frames_to_def)
  have cl: "Close 1 \<in> set ?evs" by simp
  have run: "ws_run (ws_step (ws_run ws_initial ?pre) (HeartbeatTick 1)) ?evs =
      ws_run ws_initial [Connection 1, NewBlock 100, HeartbeatTick 1, NewBlock 101, HeartbeatTick 1,
       NewBlock 102, Close 1, NewBlock 103]"
    by (simp add: ws_run_def)
  from unanswered_probe_ends_broadcasts[where pre="?pre" and c=1 and cl="?cl",
      THEN conjunct1, rule_format, OF pre, of ?evs] cl
  have a: "frames_to (ws_run ws_initial
      [Connection 1, NewBlock 100, HeartbeatTick 1, NewBlock 101, HeartbeatTick 1,
       NewBlock 102, Close 1, NewBlock 103]) 1 = [Welcome, Block 100, Ping, Block 101] \<and>
   \<not> is_open (ws_run ws_initial
      [Connection 1, NewBlock 100, HeartbeatTick 1, NewBlock 101, HeartbeatTick 1,
       NewBlock 102, Close 1, NewBlock 103]) 1 \<and>
   1 \<notin> set (connectedClients (ws_run ws_initial
      [Connection 1, NewBlock 100, HeartbeatTick 1, NewBlock 101, HeartbeatTick 1,
       NewBlock 102, Close 1, NewBlock 103]))"
    unfolding run fr by blast
  have quiet: "sockets (ws_run ws_initial [Connection 1, NewBlock 100]) 1 \<noteq> None \<and>
      Pong 1 \<notin> set [NewBlock 101]"
    by (simp add: ws_run_def ws_initial_def WS_MAX_CLIENTS_def)
  from unanswered_probe_ends_broadcasts[where pre="[Connection 1, NewBlock 100]" and c=1
      and between="[NewBlock 101]", THEN conjunct2, rule_format, OF quiet, THEN conjunct2, rule_format,
      of ?evs]
  have b: "frames_to (ws_run ws_initial
      [Connection 1, NewBlock 100, HeartbeatTick 1, NewBlock 101, HeartbeatTick 1,
       NewBlock 102, Close 1, NewBlock 103]) 1 =
   frames_to (ws_run ws_initial
      [Connection 1, NewBlock 100, HeartbeatTick 1, NewBlock 101, HeartbeatTick 1]) 1"
    by simp
  from a b show ?thesis by blast
qed

end
